theory Spec2Isabelle
  imports Main
begin

chapter \<open>The conversion patterns\<close>

section \<open>Program graph\<close>

text \<open>
  The pass in \<^verbatim>\<open>backends/gpu/lib/pass/pass.cc\<close> rewrites MLIR: an operation has operands
  (values), result types and nested regions; a region is a list of blocks; a block has
  typed arguments and a list of operations. Operations and blocks are identified by their
  address, here a natural number handed out by the rewriter when it creates them.
\<close>

datatype ty =
    ChainType | StreamType | EventType | ContextType | AsyncTokenType
  | BufferType | IndexType | OtherType nat

text \<open>A value is a result of an operation or an argument of a block, and carries its type.\<close>

datatype val =
    OpResult nat nat ty
  | BlockArgument nat nat ty

fun getType :: "val \<Rightarrow> ty" where
  "getType (OpResult _ _ t) = t"
| "getType (BlockArgument _ _ t) = t"

text \<open>
  The operation kinds the pass tells apart. \<open>FuncOp\<close> carries its function type (inputs,
  results), \<open>ConstantIndexOp\<close> its value; \<open>AsyncExecuteOp\<close> and \<open>CastOp\<close> are the
  \<^verbatim>\<open>tfrt_gpu_conversion\<close> operations, \<open>ExecuteOp\<close> and \<open>YieldOp\<close> those of the async
  dialect, \<open>WaitOp\<close> is \<^verbatim>\<open>gpu.wait\<close>, \<open>ViewOp\<close> is \<^verbatim>\<open>memref.view\<close>.
\<close>

datatype op_name =
    FuncOp "ty list" "ty list"
  | AsyncExecuteOp | CastOp
  | ExecuteOp | YieldOp | WaitOp | ViewOp
  | ConstantIndexOp int
  | ReturnOp | NewChainOp
  | StreamGetContextOp | StreamCreateOp | StreamWaitOp
  | EventCreateOp | EventRecordOp
  | OtherOp nat

datatype operation =
  Operation (op_id: nat) (name: op_name) (getOperands: "val list") (getResultTypes: "ty list")
    (getRegions: "block list list")
and block =
  Block (block_id: nat) (getArguments: "ty list") (getOperations: "operation list")

datatype LogicalResult = Success | Failure

fun succeeded :: "LogicalResult \<Rightarrow> bool" where
  "succeeded Success = True"
| "succeeded Failure = False"

text \<open>
  The part of a \<^verbatim>\<open>PatternRewriter\<close> the patterns rely on: the supply of fresh addresses for
  created operations and blocks, and the reasons of the match failures it was notified of.
\<close>

record PatternRewriter =
  next_id :: nat
  diagnostics :: "string list"

definition notifyMatchFailure ::
  "string \<Rightarrow> 'a PatternRewriter_scheme \<Rightarrow> LogicalResult \<times> 'a PatternRewriter_scheme" where
  "notifyMatchFailure reason rw = (Failure, rw\<lparr>diagnostics := diagnostics rw @ [reason]\<rparr>)"

text \<open>
  A \<^verbatim>\<open>ConversionPatternRewriter\<close> also keeps what a conversion pattern did: the operations
  it created at the insertion point (just before the matched operation), in order; the
  operations it erased; the operations it replaced, with the replacing values; and the
  new state of the operations it updated in place. The patterns below only add to these
  records: nothing in them reads an operation through the rewriter, and no call of theirs
  takes a record back.
\<close>

record ConversionPatternRewriter = PatternRewriter +
  inserted :: "operation list"
  erased :: "nat list"
  replaced :: "(nat \<times> val list) list"
  updated :: "operation list"

text \<open>
  Modelled from the spec: the definitions of the created operations are not part of the
  sources at hand. Each of them has one result, of the type the pass binds it to (a new
  chain, a stream's context, an event, the chain after recording or waiting, a stream,
  a token). \<open>create\<close> is \<^verbatim>\<open>rewriter.create<Op>(loc, operands...).getResult()\<close>.
\<close>

definition create ::
  "op_name \<Rightarrow> val list \<Rightarrow> ty \<Rightarrow> ConversionPatternRewriter \<Rightarrow> val \<times> ConversionPatternRewriter" where
  "create n args t rw =
     (OpResult (next_id rw) 0 t,
      rw\<lparr>next_id := next_id rw + 1,
         inserted := inserted rw @ [Operation (next_id rw) n args [t] []]\<rparr>)"

definition eraseOp :: "operation \<Rightarrow> ConversionPatternRewriter \<Rightarrow> ConversionPatternRewriter" where
  "eraseOp op rw = rw\<lparr>erased := erased rw @ [op_id op]\<rparr>"

definition replaceOp ::
  "operation \<Rightarrow> val list \<Rightarrow> ConversionPatternRewriter \<Rightarrow> ConversionPatternRewriter" where
  "replaceOp op vals rw = rw\<lparr>replaced := replaced rw @ [(op_id op, vals)]\<rparr>"

fun setOperand :: "operation \<Rightarrow> nat \<Rightarrow> val \<Rightarrow> operation" where
  "setOperand (Operation i n os ts rs) k v = Operation i n (os[k := v]) ts rs"

definition updateRootInPlace ::
  "operation \<Rightarrow> ConversionPatternRewriter \<Rightarrow> ConversionPatternRewriter" where
  "updateRootInPlace op' rw = rw\<lparr>updated := updated rw @ [op']\<rparr>"

text \<open>
  \<^verbatim>\<open>Value::getDefiningOp\<close> reads the operation a result belongs to; \<open>ir\<close> maps the
  addresses of the operations of the program to them. A block argument has none.
\<close>

fun getDefiningOp :: "(nat \<rightharpoonup> operation) \<Rightarrow> val \<Rightarrow> operation option" where
  "getDefiningOp ir (OpResult i _ _) = ir i"
| "getDefiningOp ir (BlockArgument _ _ _) = None"

definition front_of :: "'a list \<Rightarrow> 'a option" where
  "front_of xs = (case xs of [] \<Rightarrow> None | x # _ \<Rightarrow> Some x)"

definition back_of :: "'a list \<Rightarrow> 'a option" where
  "back_of xs = (if xs = [] then None else Some (last xs))"

text \<open>
  Accessors of a function: its single region, the terminator of its last block and the
  arguments of its entry block. MLIR asserts that the list read is not empty and the
  index in range; \<open>None\<close> stands for a read it does not define.
\<close>

definition getBody :: "operation \<Rightarrow> block list option" where
  "getBody f = (case getRegions f of [body] \<Rightarrow> Some body | _ \<Rightarrow> None)"

definition getTerminator :: "block \<Rightarrow> operation option" where
  "getTerminator b = back_of (getOperations b)"

definition back_getTerminator :: "operation \<Rightarrow> operation option" where
  "back_getTerminator f =
     (case getBody f of None \<Rightarrow> None
      | Some body \<Rightarrow> (case back_of body of None \<Rightarrow> None | Some b \<Rightarrow> getTerminator b))"

definition getArgument :: "operation \<Rightarrow> nat \<Rightarrow> val option" where
  "getArgument f k =
     (case getBody f of None \<Rightarrow> None
      | Some body \<Rightarrow>
          (case front_of body of None \<Rightarrow> None
           | Some entry \<Rightarrow>
               if k < length (getArguments entry)
               then Some (BlockArgument (block_id entry) k (getArguments entry ! k))
               else None))"

section \<open>Wrapping runs of legal operations\<close>

text \<open>
  Modelled from the spec: the builder of \<^verbatim>\<open>conversion::AsyncExecuteOp\<close> is not part of the
  sources at hand. An Async Block is ``a synthetic Operation wrapping a nested Region; its
  Region takes a (Chain, Queue) pair as block arguments and returns a single output
  Chain''. The created operation takes address \<open>n\<close>, its body block \<open>n + 1\<close> and the
  body's terminator \<open>n + 2\<close>, which returns the chain argument.
\<close>

definition create_AsyncExecuteOp ::
  "'a PatternRewriter_scheme \<Rightarrow> operation \<times> 'a PatternRewriter_scheme" where
  "create_AsyncExecuteOp rw =
     (let n = next_id rw
      in (Operation n AsyncExecuteOp [] []
            [[Block (n + 1) [ChainType, StreamType]
                [Operation (n + 2) ReturnOp [BlockArgument (n + 1) 0 ChainType] [] []]]],
          rw\<lparr>next_id := n + 3\<rparr>))"

text \<open>
  \<^verbatim>\<open>body->getOperations().splice(body->begin(), ...)\<close>: the moved operations go to the
  front of the (single) body block, before its terminator.
\<close>

fun splice_into_body :: "operation list \<Rightarrow> operation \<Rightarrow> operation" where
  "splice_into_body run (Operation i n os ts [[Block b as body]]) =
     Operation i n os ts [[Block b as (run @ body)]]"
| "splice_into_body run op = op"

text \<open>
  The loop of \<^verbatim>\<open>WrapInAsyncExecPattern::matchAndRewriteBlock\<close>. The block's operation list
  is \<open>pre @ run @ rest\<close>: \<open>rest\<close> is what the iteration has not reached, \<open>run\<close> is the
  range from \<^verbatim>\<open>legal_begin\<close> up to the current operation (empty exactly when
  \<^verbatim>\<open>legal_begin\<close> is null), \<open>pre\<close> is everything before it.
\<close>

fun scan ::
  "(operation \<Rightarrow> bool) \<Rightarrow> operation list \<Rightarrow> operation list \<Rightarrow> operation list \<Rightarrow>
   LogicalResult \<Rightarrow> 'a PatternRewriter_scheme \<Rightarrow>
   LogicalResult \<times> operation list \<times> 'a PatternRewriter_scheme" where
  "scan isLegal pre run [] result rw = (result, pre @ run, rw)"
| "scan isLegal pre run (op # rest) result rw =
     (if isLegal op then scan isLegal pre (run @ [op]) rest result rw
      else if run = [] then scan isLegal (pre @ [op]) [] rest result rw
      else
        (let (exec, rw') = create_AsyncExecuteOp rw
         in scan isLegal (pre @ [splice_into_body run exec, op]) [] rest Success rw'))"

fun matchAndRewriteBlock ::
  "(operation \<Rightarrow> bool) \<Rightarrow> block \<Rightarrow> 'a PatternRewriter_scheme \<Rightarrow>
   LogicalResult \<times> block \<times> 'a PatternRewriter_scheme" where
  "matchAndRewriteBlock isLegal (Block b as ops) rw =
     (let (result, ops', rw') = scan isLegal [] [] ops Failure rw
      in (result, Block b as ops', rw'))"

text \<open>
  \<^verbatim>\<open>op.walk([&](Block *block) {...})\<close> is MLIR's walk over the blocks nested under an
  operation, in its default post-order: for every block of every region, the operations
  of the block are walked first and the callback is called on the block afterwards. A
  callback called in post-order has nothing left to skip, so \<open>Skip\<close> and \<open>Advance\<close>
  continue alike. The callback receives the name of \<^verbatim>\<open>block->getParentOp()\<close>.
\<close>

datatype WalkResult = Advance | Skip

fun walk :: "(op_name \<Rightarrow> block \<Rightarrow> 's \<Rightarrow> WalkResult \<times> block \<times> 's) \<Rightarrow>
    operation \<Rightarrow> 's \<Rightarrow> operation \<times> 's"
and walk_regions :: "(op_name \<Rightarrow> block \<Rightarrow> 's \<Rightarrow> WalkResult \<times> block \<times> 's) \<Rightarrow>
    op_name \<Rightarrow> block list list \<Rightarrow> 's \<Rightarrow> block list list \<times> 's"
and walk_blocks :: "(op_name \<Rightarrow> block \<Rightarrow> 's \<Rightarrow> WalkResult \<times> block \<times> 's) \<Rightarrow>
    op_name \<Rightarrow> block list \<Rightarrow> 's \<Rightarrow> block list \<times> 's"
and walk_ops :: "(op_name \<Rightarrow> block \<Rightarrow> 's \<Rightarrow> WalkResult \<times> block \<times> 's) \<Rightarrow>
    operation list \<Rightarrow> 's \<Rightarrow> operation list \<times> 's" where
  "walk callback (Operation i n os ts rs) st =
     (let (rs', st') = walk_regions callback n rs st in (Operation i n os ts rs', st'))"
| "walk_regions callback parent [] st = ([], st)"
| "walk_regions callback parent (r # rs) st =
     (let (r', st1) = walk_blocks callback parent r st;
          (rs', st2) = walk_regions callback parent rs st1
      in (r' # rs', st2))"
| "walk_blocks callback parent [] st = ([], st)"
| "walk_blocks callback parent (Block b as ops # bs) st =
     (let (ops', st1) = walk_ops callback ops st;
          (_, blk', st2) = callback parent (Block b as ops') st1;
          (bs', st3) = walk_blocks callback parent bs st2
      in (blk' # bs', st3))"
| "walk_ops callback [] st = ([], st)"
| "walk_ops callback (op # ops) st =
     (let (op', st1) = walk callback op st;
          (ops', st2) = walk_ops callback ops st1
      in (op' # ops', st2))"

text \<open>
  The callback of \<^verbatim>\<open>WrapInAsyncExecPattern::matchAndRewrite\<close>; its state is the captured
  \<^verbatim>\<open>result\<close> and the rewriter.
\<close>

definition wrap_callback ::
  "(operation \<Rightarrow> bool) \<Rightarrow> op_name \<Rightarrow> block \<Rightarrow> LogicalResult \<times> 'a PatternRewriter_scheme \<Rightarrow>
   WalkResult \<times> block \<times> LogicalResult \<times> 'a PatternRewriter_scheme" where
  "wrap_callback isLegal parent blk st =
     (case st of (result, rw) \<Rightarrow>
        if parent = AsyncExecuteOp then (Skip, blk, result, rw)
        else
          (let (r, blk', rw') = matchAndRewriteBlock isLegal blk rw
           in (Advance, blk', if succeeded r then Success else result, rw')))"

text \<open>
  \<^verbatim>\<open>startRootUpdate\<close>, \<^verbatim>\<open>finalizeRootUpdate\<close> and \<^verbatim>\<open>cancelRootUpdate\<close> belong to the
  rewriter, not to the pass. They are taken as notifications that leave the operation
  as the walk left it: nothing below relies on the rewriter undoing anything.
\<close>

definition startRootUpdate :: "operation \<Rightarrow> operation" where
  "startRootUpdate op = op"

definition finalizeRootUpdate :: "operation \<Rightarrow> operation" where
  "finalizeRootUpdate op = op"

definition cancelRootUpdate :: "operation \<Rightarrow> operation" where
  "cancelRootUpdate op = op"

definition WrapInAsyncExecPattern_matchAndRewrite ::
  "(operation \<Rightarrow> bool) \<Rightarrow> operation \<Rightarrow> 'a PatternRewriter_scheme \<Rightarrow>
   LogicalResult \<times> operation \<times> 'a PatternRewriter_scheme" where
  "WrapInAsyncExecPattern_matchAndRewrite isLegal op rw =
     (let op0 = startRootUpdate op;
          (op', result, rw') = walk (wrap_callback isLegal) op0 (Failure, rw)
      in (result,
          if succeeded result then finalizeRootUpdate op' else cancelRootUpdate op',
          rw'))"

section \<open>Folding a view of a buffer\<close>

text \<open>
  \<^verbatim>\<open>getDefiningOp<ConstantIndexOp>()\<close> followed by \<^verbatim>\<open>getValue()\<close>: the value of the
  constant that defines \<open>v\<close>, if a constant index operation defines it.
\<close>

definition getDefiningConstantIndex :: "(nat \<rightharpoonup> operation) \<Rightarrow> val \<Rightarrow> int option" where
  "getDefiningConstantIndex ir v =
     (case getDefiningOp ir v of
        None \<Rightarrow> None
      | Some d \<Rightarrow> (case name d of ConstantIndexOp c \<Rightarrow> Some c | _ \<Rightarrow> None))"

text \<open>
  \<^verbatim>\<open>FoldMemrefViewPattern::matchAndRewrite\<close>. The adaptor reads operand 0 as the source,
  operand 1 as the byte shift and the remaining operands as the sizes; with fewer than
  two operands those reads are not defined (\<open>None\<close>).
\<close>

definition FoldMemrefViewPattern_matchAndRewrite ::
  "(nat \<rightharpoonup> operation) \<Rightarrow> operation \<Rightarrow> val list \<Rightarrow> ConversionPatternRewriter \<Rightarrow>
   (LogicalResult \<times> ConversionPatternRewriter) option" where
  "FoldMemrefViewPattern_matchAndRewrite ir op operands rw =
     (case operands of
        source # byte_shift # sizes \<Rightarrow>
          Some
            (if getType source \<noteq> BufferType then
               notifyMatchFailure ''expected gpu::BufferType source'' rw
             else
               (let byte_shift_value = getDefiningConstantIndex ir byte_shift
                in if byte_shift_value = None \<or> byte_shift_value \<noteq> Some 0 then
                     notifyMatchFailure ''expected const zero byte_shift'' rw
                   else if sizes \<noteq> [] then
                     notifyMatchFailure ''expected no sizes'' rw
                   else (Success, replaceOp op [source] rw)))
      | _ \<Rightarrow> None)"

section \<open>Tokens cast from a chain and a stream\<close>

text \<open>\<^verbatim>\<open>GetDefiningCastOp\<close>: the defining operation of a value if it casts a chain and a stream.\<close>

definition GetDefiningCastOp :: "(nat \<rightharpoonup> operation) \<Rightarrow> val \<Rightarrow> operation option" where
  "GetDefiningCastOp ir v =
     (case getDefiningOp ir v of
        None \<Rightarrow> None
      | Some cast_op \<Rightarrow>
          if name cast_op = CastOp \<and> length (getOperands cast_op) = 2 \<and>
             getType (getOperands cast_op ! 0) = ChainType \<and>
             getType (getOperands cast_op ! 1) = StreamType
          then Some cast_op else None)"

section \<open>Rewriting the signature of a function\<close>

text \<open>Replacing uses: every operand of every operation below is mapped through \<open>f\<close>.\<close>

fun replace_uses :: "(val \<Rightarrow> val) \<Rightarrow> operation \<Rightarrow> operation"
and replace_uses_block :: "(val \<Rightarrow> val) \<Rightarrow> block \<Rightarrow> block" where
  "replace_uses f (Operation i n os ts rs) =
     Operation i n (map f os) ts (map (map (replace_uses_block f)) rs)"
| "replace_uses_block f (Block b as ops) = Block b as (map (replace_uses f) ops)"

text \<open>
  \<^verbatim>\<open>rewriter.mergeBlocks(source, dest, argValues)\<close> on a region \<open>dest # source # blocks\<close>:
  every use of argument \<open>k\<close> of \<open>source\<close> becomes \<open>argValues ! k\<close>, the operations of
  \<open>source\<close> move to the end of \<open>dest\<close> and \<open>source\<close> is erased. MLIR asserts that there
  is one replacement value for each argument.
\<close>

fun replace_argument :: "nat \<Rightarrow> val list \<Rightarrow> val \<Rightarrow> val" where
  "replace_argument b argValues (BlockArgument b' k t) =
     (if b' = b \<and> k < length argValues then argValues ! k else BlockArgument b' k t)"
| "replace_argument b argValues (OpResult i k t) = OpResult i k t"

definition mergeBlocks :: "block \<Rightarrow> block \<Rightarrow> val list \<Rightarrow> block list \<Rightarrow> block list option" where
  "mergeBlocks source dest argValues blocks =
     (if length argValues \<noteq> length (getArguments source) then None
      else
        Some (map (replace_uses_block (replace_argument (block_id source) argValues))
               (Block (block_id dest) (getArguments dest)
                  (getOperations dest @ getOperations source) # blocks)))"

text \<open>
  \<^verbatim>\<open>rewriter.replaceOpWithNewOp<compiler::ReturnOp>(terminator, v)\<close> where \<open>terminator\<close> is
  the last operation of the last block, fetched beforehand: the new operation is created
  at the rewriter's insertion point, which \<^verbatim>\<open>createBlock\<close> left at the end of the entry
  block, and the terminator is removed. MLIR asserts that the last block is not empty and
  that the replaced operation has as many results as the new one (none).
\<close>

fun remove_terminator :: "block list \<Rightarrow> block list option" where
  "remove_terminator [] = None"
| "remove_terminator [Block b as ops] =
     (case getTerminator (Block b as ops) of
        None \<Rightarrow> None
      | Some terminator \<Rightarrow>
          if getResultTypes terminator \<noteq> [] then None else Some [Block b as (butlast ops)])"
| "remove_terminator (blk # blks) =
     (case remove_terminator blks of None \<Rightarrow> None | Some blks' \<Rightarrow> Some (blk # blks'))"

fun insert_at_end_of_entry :: "operation \<Rightarrow> block list \<Rightarrow> block list" where
  "insert_at_end_of_entry new_op [] = []"
| "insert_at_end_of_entry new_op (Block b as ops # blks) = Block b as (ops @ [new_op]) # blks"

text \<open>
  \<^verbatim>\<open>SignatureRewritePattern::matchAndRewrite\<close>. The created entry block takes address
  \<open>next_id\<close>, the created return operation the one after it.
\<close>

definition SignatureRewritePattern_matchAndRewrite ::
  "operation \<Rightarrow> 'a PatternRewriter_scheme \<Rightarrow>
   (LogicalResult \<times> operation \<times> 'a PatternRewriter_scheme) option" where
  "SignatureRewritePattern_matchAndRewrite op rw =
     (case name op of
        FuncOp inputs results \<Rightarrow>
          if length results > 0 then
            (let (r, rw') = notifyMatchFailure ''Expected no result'' rw in Some (r, op, rw'))
          else
            (let chain_type = ChainType;
                 input_types = chain_type # StreamType # inputs
             in case getBody op of
                  None \<Rightarrow> None
                | Some [] \<Rightarrow> None
                | Some (block # blocks) \<Rightarrow>
                    (let entry = Block (next_id rw) input_types [];
                         block_args = map (\<lambda>k. BlockArgument (next_id rw) k (input_types ! k))
                                        [0..<length input_types]
                     in case mergeBlocks block entry (drop 2 block_args) blocks of
                          None \<Rightarrow> None
                        | Some body \<Rightarrow>
                            (case remove_terminator body of
                               None \<Rightarrow> None
                             | Some body' \<Rightarrow>
                                 Some (Success,
                                   Operation (op_id op) (FuncOp input_types [chain_type])
                                     (getOperands op) (getResultTypes op)
                                     [insert_at_end_of_entry
                                        (Operation (next_id rw + 1) ReturnOp [block_args ! 0] [] [])
                                        body'],
                                   rw\<lparr>next_id := next_id rw + 2\<rparr>))))
      | _ \<Rightarrow> None)"


section \<open>Lowering wait\<close>

text \<open>\<^verbatim>\<open>op.asyncToken()\<close>: the result of a wait, if it has one.\<close>

definition asyncToken :: "operation \<Rightarrow> val option" where
  "asyncToken op =
     (case getResultTypes op of [] \<Rightarrow> None | t # _ \<Rightarrow> Some (OpResult (op_id op) 0 t))"

text \<open>
  The loop over the operands of \<^verbatim>\<open>WaitOpRewritePattern::matchAndRewrite\<close>: events are
  collected, a token cast from a chain and a stream sets \<open>chain\<close> and \<open>stream\<close> and its
  cast is erased; \<open>None\<close> is the return from inside the loop.
\<close>

fun check_operands ::
  "(nat \<rightharpoonup> operation) \<Rightarrow> val list \<Rightarrow> val \<Rightarrow> val \<Rightarrow> val list \<Rightarrow> ConversionPatternRewriter \<Rightarrow>
   (val \<times> val \<times> val list) option \<times> ConversionPatternRewriter" where
  "check_operands ir [] chain stream events rw = (Some (chain, stream, events), rw)"
| "check_operands ir (operand # rest) chain stream events rw =
     (if getType operand = EventType then
        check_operands ir rest chain stream (events @ [operand]) rw
      else
        (case GetDefiningCastOp ir operand of
           Some cast_op \<Rightarrow>
             check_operands ir rest (getOperands cast_op ! 0) (getOperands cast_op ! 1) events
               (eraseOp cast_op rw)
         | None \<Rightarrow> (None, rw)))"

text \<open>The creation of a new chain and stream for \<^verbatim>\<open>gpu.wait async\<close> inside \<^verbatim>\<open>async.execute\<close>.\<close>

definition new_chain_and_stream ::
  "val \<Rightarrow> val list \<Rightarrow> ConversionPatternRewriter \<Rightarrow>
   val \<times> val \<times> val list \<times> ConversionPatternRewriter" where
  "new_chain_and_stream stream events rw =
     (let (chain, rw1) = create NewChainOp [] ChainType rw;
          (context, rw2) = create StreamGetContextOp [stream] ContextType rw1;
          (chain', events', rw3) =
             (if events = [] then
                (let (event, rw') = create EventCreateOp [context] EventType rw2;
                     (chain', rw'') = create EventRecordOp [event, stream, chain] ChainType rw'
                 in (chain', events @ [event], rw''))
              else (chain, events, rw2));
          (stream', rw4) = create StreamCreateOp [context] StreamType rw3
      in (chain', stream', events', rw4))"

text \<open>Synchronizing the stream with the events, one wait each, the chain threaded through.\<close>

fun wait_events ::
  "val \<Rightarrow> val list \<Rightarrow> val \<Rightarrow> ConversionPatternRewriter \<Rightarrow> val \<times> ConversionPatternRewriter" where
  "wait_events stream [] chain rw = (chain, rw)"
| "wait_events stream (event # events) chain rw =
     (let (chain', rw') = create StreamWaitOp [stream, event, chain] ChainType rw
      in wait_events stream events chain' rw')"

text \<open>
  The part of \<^verbatim>\<open>WaitOpRewritePattern::matchAndRewrite\<close> that follows the checks of the
  operands (from \<^verbatim>\<open>Location loc = op->getLoc()\<close> on): \<open>chain\<close>, \<open>stream\<close> and \<open>events\<close>
  are the values of the variables of these names when the checks have passed.
\<close>

definition WaitOp_lower ::
  "operation \<Rightarrow> val \<Rightarrow> val \<Rightarrow> val list \<Rightarrow> operation option \<Rightarrow> operation \<Rightarrow>
   ConversionPatternRewriter \<Rightarrow> LogicalResult \<times> ConversionPatternRewriter" where
  "WaitOp_lower terminator chain stream events execute_op op rw1 =
     (let (chain1, stream1, events1, rw2) =
            (if asyncToken op \<noteq> None \<and> execute_op \<noteq> None
             then new_chain_and_stream stream events rw1
             else (chain, stream, events, rw1));
          (chain2, rw3) = wait_events stream1 events1 chain1 rw2
      in if asyncToken op \<noteq> None then
           (let (token, rw4) = create CastOp [chain2, stream1] AsyncTokenType rw3
            in (Success, replaceOp op [token] rw4))
         else
           (Success,
            eraseOp op (updateRootInPlace (setOperand terminator 0 chain2) rw3)))"

text \<open>
  The part of \<^verbatim>\<open>WaitOpRewritePattern::matchAndRewrite\<close> that follows the checks of the
  parent function; \<open>chain\<close> and \<open>stream\<close> start as the function's first two arguments.
\<close>

definition WaitOp_rewrite ::
  "(nat \<rightharpoonup> operation) \<Rightarrow> operation \<Rightarrow> val \<Rightarrow> val \<Rightarrow> operation option \<Rightarrow> operation \<Rightarrow> val list \<Rightarrow>
   ConversionPatternRewriter \<Rightarrow> LogicalResult \<times> ConversionPatternRewriter" where
  "WaitOp_rewrite ir terminator chain0 stream0 execute_op op operands rw =
     (case check_operands ir operands chain0 stream0 [] rw of
        (None, rw1) \<Rightarrow> notifyMatchFailure ''expected event or cast to token'' rw1
      | (Some (chain, stream, events), rw1) \<Rightarrow>
          if length events + 1 < length (getOperands op) then
            notifyMatchFailure ''more than one token operand'' rw1
          else WaitOp_lower terminator chain stream events execute_op op rw1)"

text \<open>
  \<^verbatim>\<open>WaitOpRewritePattern::matchAndRewrite\<close>. \<open>func_op\<close> and \<open>execute_op\<close> are what
  \<^verbatim>\<open>getParentOfType<FuncOp>\<close> and \<^verbatim>\<open>getParentOfType<async::ExecuteOp>\<close> return for the
  wait (\<open>None\<close> for null; an operation that is not a function counts as none).
\<close>

definition WaitOpRewritePattern_matchAndRewrite ::
  "(nat \<rightharpoonup> operation) \<Rightarrow> operation option \<Rightarrow> operation option \<Rightarrow> operation \<Rightarrow> val list \<Rightarrow>
   ConversionPatternRewriter \<Rightarrow> (LogicalResult \<times> ConversionPatternRewriter) option" where
  "WaitOpRewritePattern_matchAndRewrite ir func_op execute_op op operands rw =
     (case func_op of
        None \<Rightarrow> Some (notifyMatchFailure ''not in func with chain and stream argument'' rw)
      | Some f \<Rightarrow>
          (case name f of
             FuncOp inputs results \<Rightarrow>
               if length inputs < 2 \<or> \<not> (inputs ! 0 = ChainType \<and> inputs ! 1 = StreamType) then
                 Some (notifyMatchFailure ''not in func with chain and stream argument'' rw)
               else
                 (case back_getTerminator f of
                    None \<Rightarrow> None
                  | Some terminator \<Rightarrow>
                      if length (getOperands terminator) < 1 \<or>
                         getType (getOperands terminator ! 0) \<noteq> ChainType then
                        Some (notifyMatchFailure ''not in func returning chain'' rw)
                      else
                        (case (getArgument f 0, getArgument f 1) of
                           (Some chain, Some stream) \<Rightarrow>
                             Some (WaitOp_rewrite ir terminator chain stream execute_op op
                                     operands rw)
                         | _ \<Rightarrow> None))
           | _ \<Rightarrow> Some (notifyMatchFailure ''not in func with chain and stream argument'' rw)))"

section \<open>Lowering yield\<close>

text \<open>
  \<^verbatim>\<open>YieldOpRewritePattern::matchAndRewrite\<close>: \<^verbatim>\<open>any_of\<close> over the enumerated operands
  stops at the first operand for which the callback returns true; \<open>idx\<close> is the index of
  the operand at the head of the list.
\<close>

fun any_of_operands ::
  "(nat \<rightharpoonup> operation) \<Rightarrow> operation \<Rightarrow> val list \<Rightarrow> nat \<Rightarrow> ConversionPatternRewriter \<Rightarrow>
   bool \<times> ConversionPatternRewriter" where
  "any_of_operands ir op [] idx rw = (False, rw)"
| "any_of_operands ir op (operand # rest) idx rw =
     (case GetDefiningCastOp ir operand of
        None \<Rightarrow> any_of_operands ir op rest (idx + 1) rw
      | Some cast_op \<Rightarrow>
          (let chain = getOperands cast_op ! 0;
               stream = getOperands cast_op ! 1;
               (context, rw1) = create StreamGetContextOp [stream] ContextType rw;
               (event, rw2) = create EventCreateOp [context] EventType rw1;
               (_, rw3) = create EventRecordOp [event, stream, chain] ChainType rw2;
               rw4 = updateRootInPlace (setOperand op idx event) rw3
           in (True, eraseOp cast_op rw4)))"

definition YieldOpRewritePattern_matchAndRewrite ::
  "(nat \<rightharpoonup> operation) \<Rightarrow> operation \<Rightarrow> val list \<Rightarrow> ConversionPatternRewriter \<Rightarrow>
   LogicalResult \<times> ConversionPatternRewriter" where
  "YieldOpRewritePattern_matchAndRewrite ir op operands rw =
     (case any_of_operands ir op operands 0 rw of
        (False, rw') \<Rightarrow> notifyMatchFailure ''no cast to token operand'' rw'
      | (True, rw') \<Rightarrow> (Success, rw'))"

chapter \<open>Notions used in the properties\<close>

section \<open>Observing the walk\<close>

text \<open>
  The calls a walk makes to its callback, as a log kept beside the callback's state: each
  entry is the parent's name, the block and the state the callback was called with.
\<close>

definition traced ::
  "(op_name \<Rightarrow> block \<Rightarrow> 's \<Rightarrow> WalkResult \<times> block \<times> 's) \<Rightarrow>
   op_name \<Rightarrow> block \<Rightarrow> (op_name \<times> block \<times> 's) list \<times> 's \<Rightarrow>
   WalkResult \<times> block \<times> (op_name \<times> block \<times> 's) list \<times> 's" where
  "traced callback parent blk st =
     (case st of (log, s) \<Rightarrow>
        (case callback parent blk s of
           (w, blk', s') \<Rightarrow> (w, blk', log @ [(parent, blk, s)], s')))"

text \<open>
  The calls of the callback during one attempt of the wrapping pattern, and whether a
  call runs a block-level rewrite that succeeds.
\<close>

definition callback_calls ::
  "(operation \<Rightarrow> bool) \<Rightarrow> operation \<Rightarrow> 'a PatternRewriter_scheme \<Rightarrow>
   (op_name \<times> block \<times> LogicalResult \<times> 'a PatternRewriter_scheme) list" where
  "callback_calls isLegal op rw =
     fst (snd (walk (traced (wrap_callback isLegal)) op ([], Failure, rw)))"

definition sub_rewrite_succeeds ::
  "(operation \<Rightarrow> bool) \<Rightarrow> op_name \<times> block \<times> LogicalResult \<times> 'a PatternRewriter_scheme \<Rightarrow> bool" where
  "sub_rewrite_succeeds isLegal call =
     (case call of (parent, blk, result, rw) \<Rightarrow>
        parent \<noteq> AsyncExecuteOp \<and> succeeded (fst (matchAndRewriteBlock isLegal blk rw)))"

text \<open>A call that gives back the block and the state it was given.\<close>

definition unchanged_by ::
  "(op_name \<Rightarrow> block \<Rightarrow> 's \<Rightarrow> WalkResult \<times> block \<times> 's) \<Rightarrow> op_name \<times> block \<times> 's \<Rightarrow> bool" where
  "unchanged_by callback call =
     (case call of (parent, blk, s) \<Rightarrow> snd (callback parent blk s) = (blk, s))"

section \<open>Created Async Blocks\<close>






section \<open>Reference descriptions of the extraction\<close>

text \<open>An Async Block created at address \<open>n\<close> around the operations \<open>run\<close>.\<close>

definition AsyncBlock :: "nat \<Rightarrow> operation list \<Rightarrow> operation" where
  "AsyncBlock n run =
     Operation n AsyncExecuteOp [] []
       [[Block (n + 1) [ChainType, StreamType]
           (run @ [Operation (n + 2) ReturnOp [BlockArgument (n + 1) 0 ChainType] [] []])]]"

text \<open>
  The maximal runs of legal operations that an illegal operation of the same block
  follows, in program order.
\<close>

function closed_runs :: "(operation \<Rightarrow> bool) \<Rightarrow> operation list \<Rightarrow> operation list list" where
  "closed_runs isLegal [] = []"
| "closed_runs isLegal (op # ops) =
     (if \<not> isLegal op then closed_runs isLegal ops
      else
        (let run = takeWhile isLegal (op # ops); rest = dropWhile isLegal (op # ops)
         in if rest = [] then [] else run # closed_runs isLegal rest))"
  by pat_completeness auto
termination
  by (relation "measure (\<lambda>(isLegal, ops). length ops)")
     (auto simp: length_dropWhile_le less_Suc_eq_le)

text \<open>
  A block in which every such run is wrapped into one Async Block at the place of its
  first operation, the addresses counting up from \<open>n\<close>; a run that reaches the end of the
  block stays as it is.
\<close>

function wrap_closed_runs :: "(operation \<Rightarrow> bool) \<Rightarrow> operation list \<Rightarrow> nat \<Rightarrow> operation list" where
  "wrap_closed_runs isLegal [] n = []"
| "wrap_closed_runs isLegal (op # ops) n =
     (if \<not> isLegal op then op # wrap_closed_runs isLegal ops n
      else
        (let run = takeWhile isLegal (op # ops); rest = dropWhile isLegal (op # ops)
         in if rest = [] then run
            else AsyncBlock n run # wrap_closed_runs isLegal rest (n + 3)))"
  by pat_completeness auto
termination
  by (relation "measure (\<lambda>(isLegal, ops, n). length ops)")
     (auto simp: length_dropWhile_le less_Suc_eq_le)

text \<open>
  The same with every maximal run wrapped, also one that is still open when the block
  ends: the extraction as the specification words it.
\<close>

function wrap_all_runs :: "(operation \<Rightarrow> bool) \<Rightarrow> operation list \<Rightarrow> nat \<Rightarrow> operation list" where
  "wrap_all_runs isLegal [] n = []"
| "wrap_all_runs isLegal (op # ops) n =
     (if \<not> isLegal op then op # wrap_all_runs isLegal ops n
      else
        (let run = takeWhile isLegal (op # ops); rest = dropWhile isLegal (op # ops)
         in AsyncBlock n run # wrap_all_runs isLegal rest (n + 3)))"
  by pat_completeness auto
termination
  by (relation "measure (\<lambda>(isLegal, ops, n). length ops)")
     (auto simp: length_dropWhile_le less_Suc_eq_le)

declare closed_runs.simps(2) [simp del]
declare wrap_closed_runs.simps(2) [simp del]
declare wrap_all_runs.simps(2) [simp del]

section \<open>What an application of a pattern records\<close>




section \<open>Example programs\<close>

text \<open>The block \<open>[legalA, legalB, illegalC, legalD]\<close> of the specification's scenario.\<close>

definition isLegal_scenario :: "operation \<Rightarrow> bool" where
  "isLegal_scenario op = (name op = OtherOp 0)"

definition legalA :: operation where "legalA = Operation 1 (OtherOp 0) [] [] []"
definition legalB :: operation where "legalB = Operation 2 (OtherOp 0) [] [] []"
definition illegalC :: operation where "illegalC = Operation 3 (OtherOp 1) [] [] []"
definition legalD :: operation where "legalD = Operation 4 (OtherOp 0) [] [] []"

definition rewriter_at :: "nat \<Rightarrow> PatternRewriter" where
  "rewriter_at n = \<lparr>next_id = n, diagnostics = []\<rparr>"

definition conversion_rewriter_at :: "nat \<Rightarrow> ConversionPatternRewriter" where
  "conversion_rewriter_at n =
     \<lparr>next_id = n, diagnostics = [], inserted = [], erased = [], replaced = [], updated = []\<rparr>"

text \<open>A view of a buffer whose byte shift is the constant 0, and one shifted by 8.\<close>

definition view_ir :: "nat \<rightharpoonup> operation" where
  "view_ir = [30 \<mapsto> Operation 30 (ConstantIndexOp 0) [] [IndexType] [],
              31 \<mapsto> Operation 31 (ConstantIndexOp 8) [] [IndexType] []]"

definition view_op :: operation where
  "view_op = Operation 2 ViewOp [OpResult 7 0 BufferType, OpResult 30 0 IndexType] [OtherType 0] []"

text \<open>
  A function whose block holds a legal operation before an illegal one, and a function
  with nothing to wrap.
\<close>

definition wrap_func :: operation where
  "wrap_func =
     Operation 0 (FuncOp [] []) [] []
       [[Block 5 [] [legalA, illegalC, Operation 6 ReturnOp [] [] []]]]"

definition plain_func :: operation where
  "plain_func =
     Operation 0 (FuncOp [] []) [] [] [[Block 5 [] [illegalC, Operation 6 ReturnOp [] [] []]]]"





text \<open>
  A function without parameters and results whose body has two blocks: the entry block
  ends in a branch (operation 2) to the second block, which returns.
\<close>

definition two_block_func :: operation where
  "two_block_func =
     Operation 0 (FuncOp [] []) [] []
       [[Block 1 [] [Operation 2 (OtherOp 1) [] [] []],
         Block 3 [] [Operation 4 (OtherOp 2) [] [] [], Operation 5 ReturnOp [] [] []]]]"

text \<open>
  A function in target form whose body holds a wait (operation 2) and returns its chain
  argument; a cast of a chain and a stream to a token (operation 30) and a second one (31).
\<close>

definition wait_func :: operation where
  "wait_func =
     Operation 0 (FuncOp [ChainType, StreamType] [ChainType]) [] []
       [[Block 1 [ChainType, StreamType]
           [Operation 2 WaitOp [] [] [],
            Operation 3 ReturnOp [BlockArgument 1 0 ChainType] [] []]]]"

definition wait_ir :: "nat \<rightharpoonup> operation" where
  "wait_ir =
     [30 \<mapsto> Operation 30 CastOp [OpResult 40 0 ChainType, OpResult 41 0 StreamType]
              [AsyncTokenType] [],
      31 \<mapsto> Operation 31 CastOp [OpResult 42 0 ChainType, OpResult 43 0 StreamType]
              [AsyncTokenType] []]"

definition execute_parent :: "operation option" where
  "execute_parent = Some (Operation 9 ExecuteOp [] [AsyncTokenType] [])"


text \<open>
  A yield of two tokens, each cast from a chain and a stream by operations 30 and 31.
\<close>

definition yield_ir :: "nat \<rightharpoonup> operation" where
  "yield_ir =
     [30 \<mapsto> Operation 30 CastOp [OpResult 40 0 ChainType, OpResult 41 0 StreamType]
              [AsyncTokenType] [],
      31 \<mapsto> Operation 31 CastOp [OpResult 42 0 ChainType, OpResult 43 0 StreamType]
              [AsyncTokenType] []]"

definition yield_op :: operation where
  "yield_op =
     Operation 2 YieldOp [OpResult 30 0 AsyncTokenType, OpResult 31 0 AsyncTokenType] [] []"

chapter \<open>Properties\<close>

section \<open>Extraction of runs within a block\<close>

lemma splice_created:
  "create_AsyncExecuteOp rw = (exec, rw') \<Longrightarrow>
     splice_into_body run exec = AsyncBlock (next_id rw) run \<and>
     rw' = rw\<lparr>next_id := next_id rw + 3\<rparr>"
  by (auto simp: create_AsyncExecuteOp_def AsyncBlock_def Let_def)

lemma takeWhile_run:
  "\<forall>x\<in>set run. P x \<Longrightarrow> \<not> P y \<Longrightarrow> takeWhile P (run @ y # rest) = run"
  by (induction run) auto

lemma dropWhile_run:
  "\<forall>x\<in>set run. P x \<Longrightarrow> \<not> P y \<Longrightarrow> dropWhile P (run @ y # rest) = y # rest"
  by (induction run) auto

lemma takeWhile_all: "\<forall>x\<in>set run. P x \<Longrightarrow> takeWhile P run = run"
  by (induction run) auto

lemma dropWhile_all: "\<forall>x\<in>set run. P x \<Longrightarrow> dropWhile P run = []"
  by (induction run) auto

lemma wrap_closed_runs_open:
  assumes "\<forall>x\<in>set run. isLegal x"
  shows "wrap_closed_runs isLegal run n = run"
proof (cases run)
  case Nil
  then show ?thesis by simp
next
  case (Cons a as)
  with assms have "isLegal a" by simp
  moreover have "takeWhile isLegal (a # as) = a # as" "dropWhile isLegal (a # as) = []"
    using assms Cons takeWhile_all [of run isLegal] dropWhile_all [of run isLegal] by simp_all
  ultimately show ?thesis using Cons by (simp add: Let_def wrap_closed_runs.simps(2))
qed

lemma wrap_closed_runs_closed:
  assumes "\<forall>x\<in>set run. isLegal x" and "run \<noteq> []" and "\<not> isLegal op"
  shows "wrap_closed_runs isLegal (run @ op # rest) n =
           AsyncBlock n run # op # wrap_closed_runs isLegal rest (n + 3)"
proof -
  obtain a as where run: "run = a # as" using assms(2) by (cases run) auto
  with assms have a: "isLegal a" by simp
  have tw: "takeWhile isLegal (a # as @ op # rest) = a # as"
    using takeWhile_run [of run isLegal op rest] assms run by simp
  have dw: "dropWhile isLegal (a # as @ op # rest) = op # rest"
    using dropWhile_run [of run isLegal op rest] assms run by simp
  have "wrap_closed_runs isLegal (a # as @ op # rest) n =
          AsyncBlock n (a # as) # wrap_closed_runs isLegal (op # rest) (n + 3)"
    by (subst wrap_closed_runs.simps(2)) (simp only: a tw dw Let_def, simp)
  then show ?thesis using run assms(3) by (simp add: wrap_closed_runs.simps(2))
qed

lemma closed_runs_open:
  assumes "\<forall>x\<in>set run. isLegal x"
  shows "closed_runs isLegal run = []"
proof (cases run)
  case Nil
  then show ?thesis by simp
next
  case (Cons a as)
  with assms have "isLegal a" by simp
  moreover have "dropWhile isLegal (a # as) = []"
    using assms Cons dropWhile_all [of run isLegal] by simp
  ultimately show ?thesis using Cons by (simp add: Let_def closed_runs.simps(2))
qed

lemma closed_runs_closed:
  assumes "\<forall>x\<in>set run. isLegal x" and "run \<noteq> []" and "\<not> isLegal op"
  shows "closed_runs isLegal (run @ op # rest) = run # closed_runs isLegal rest"
proof -
  obtain a as where run: "run = a # as" using assms(2) by (cases run) auto
  with assms have a: "isLegal a" by simp
  have tw: "takeWhile isLegal (a # as @ op # rest) = a # as"
    using takeWhile_run [of run isLegal op rest] assms run by simp
  have dw: "dropWhile isLegal (a # as @ op # rest) = op # rest"
    using dropWhile_run [of run isLegal op rest] assms run by simp
  have "closed_runs isLegal (a # as @ op # rest) = (a # as) # closed_runs isLegal (op # rest)"
    by (subst closed_runs.simps(2)) (simp only: a tw dw Let_def, simp)
  then show ?thesis using run assms(3) by (simp add: closed_runs.simps(2))
qed

lemma closed_runs_illegal:
  "\<not> isLegal op \<Longrightarrow> closed_runs isLegal (op # ops) = closed_runs isLegal ops"
  by (simp add: closed_runs.simps(2))

lemma wrap_closed_runs_illegal:
  "\<not> isLegal op \<Longrightarrow>
     wrap_closed_runs isLegal (op # ops) n = op # wrap_closed_runs isLegal ops n"
  by (simp add: wrap_closed_runs.simps(2))

lemma closed_runs_legal:
  "run \<in> set (closed_runs isLegal ops) \<Longrightarrow> run \<noteq> [] \<and> (\<forall>x\<in>set run. isLegal x)"
proof (induction isLegal ops rule: closed_runs.induct)
  case (1 isLegal)
  then show ?case by simp
next
  case (2 isLegal op ops)
  show ?case
  proof (cases "isLegal op")
    case False
    with "2.prems" have "run \<in> set (closed_runs isLegal ops)"
      by (simp add: closed_runs.simps(2))
    with "2.IH"(1) False show ?thesis by blast
  next
    case True
    define rest where "rest = dropWhile isLegal (op # ops)"
    have unfold: "closed_runs isLegal (op # ops) =
        (if rest = [] then [] else takeWhile isLegal (op # ops) # closed_runs isLegal rest)"
      unfolding rest_def using True
      by (subst closed_runs.simps(2)) (simp add: Let_def)
    show ?thesis
    proof (cases "rest = []")
      case True
      with unfold "2.prems" show ?thesis by simp
    next
      case False
      with unfold "2.prems"
      consider "run = takeWhile isLegal (op # ops)" | "run \<in> set (closed_runs isLegal rest)"
        by auto
      then show ?thesis
      proof cases
        case 1
        have "\<forall>x\<in>set (takeWhile isLegal (op # ops)). isLegal x"
          by (meson set_takeWhileD)
        moreover have "takeWhile isLegal (op # ops) \<noteq> []" using True by simp
        ultimately show ?thesis using 1 by simp
      next
        case 2
        have "\<not> \<not> isLegal op" using True by simp
        from "2.IH"(2) [OF this refl refl] False 2 show ?thesis
          unfolding rest_def by blast
      qed
    qed
  qed
qed

text \<open>The loop, started anywhere in a block with an open run of legal operations.\<close>

lemma scan_refines:
  assumes "\<forall>x\<in>set run. isLegal x"
  shows "scan isLegal pre run rest result rw =
           (if closed_runs isLegal (run @ rest) = [] then result else Success,
            pre @ wrap_closed_runs isLegal (run @ rest) (next_id rw),
            rw\<lparr>next_id := next_id rw + 3 * length (closed_runs isLegal (run @ rest))\<rparr>)"
  using assms
proof (induction rest arbitrary: pre run result rw)
  case Nil
  then show ?case by (simp add: wrap_closed_runs_open closed_runs_open)
next
  case (Cons op rest)
  show ?case
  proof (cases "isLegal op")
    case True
    with Cons.prems have "\<forall>x\<in>set (run @ [op]). isLegal x" by simp
    from Cons.IH [OF this] True show ?thesis by simp
  next
    case False
    show ?thesis
    proof (cases "run = []")
      case True
      have "\<forall>x\<in>set ([]::operation list). isLegal x" by simp
      from Cons.IH [OF this, of "pre @ [op]" result rw] True False show ?thesis
        by (simp add: closed_runs_illegal wrap_closed_runs_illegal)
    next
      case nonempty: False
      obtain exec rw' where c: "create_AsyncExecuteOp rw = (exec, rw')"
        by (cases "create_AsyncExecuteOp rw")
      from splice_created [OF c, of run]
      have e: "splice_into_body run exec = AsyncBlock (next_id rw) run"
        and r: "rw' = rw\<lparr>next_id := next_id rw + 3\<rparr>" by simp_all
      have "\<forall>x\<in>set ([]::operation list). isLegal x" by simp
      from Cons.IH [OF this, of "pre @ [AsyncBlock (next_id rw) run, op]" Success rw']
      have "scan isLegal (pre @ [AsyncBlock (next_id rw) run, op]) [] rest Success rw' =
              (Success,
               (pre @ [AsyncBlock (next_id rw) run, op]) @
                 wrap_closed_runs isLegal rest (next_id rw'),
               rw'\<lparr>next_id := next_id rw' + 3 * length (closed_runs isLegal rest)\<rparr>)"
        by simp
      then show ?thesis
        using False nonempty c e r
          wrap_closed_runs_closed [OF Cons.prems nonempty False, of rest "next_id rw"]
          closed_runs_closed [OF Cons.prems nonempty False, of rest]
        by (simp add: closed_runs_illegal wrap_closed_runs_illegal)
    qed
  qed
qed

text \<open>
  C2, as amended. Scanning a block in program order, every maximal run of one or more
  legal operations that is followed by an illegal operation of the block is wrapped into
  exactly one Async Block, created at the place of the run's first operation, the run
  moved inside in its order (before the body's terminator); illegal operations stay in
  the block and no run is empty; a run that is still open when the block ends is left
  unwrapped. The rewrite of the block succeeds exactly when it wrapped a run.
\<close>

theorem matchAndRewriteBlock_wraps_closed_runs:
  "matchAndRewriteBlock isLegal (Block b as ops) rw =
     (if closed_runs isLegal ops = [] then Failure else Success,
      Block b as (wrap_closed_runs isLegal ops (next_id rw)),
      rw\<lparr>next_id := next_id rw + 3 * length (closed_runs isLegal ops)\<rparr>)
   \<and> (\<forall>run\<in>set (closed_runs isLegal ops). run \<noteq> [] \<and> (\<forall>x\<in>set run. isLegal x))"
proof
  have "\<forall>x\<in>set ([]::operation list). isLegal x" by simp
  from scan_refines [OF this, of "[]" ops Failure rw]
  show "matchAndRewriteBlock isLegal (Block b as ops) rw =
     (if closed_runs isLegal ops = [] then Failure else Success,
      Block b as (wrap_closed_runs isLegal ops (next_id rw)),
      rw\<lparr>next_id := next_id rw + 3 * length (closed_runs isLegal ops)\<rparr>)"
    by simp
  show "\<forall>run\<in>set (closed_runs isLegal ops). run \<noteq> [] \<and> (\<forall>x\<in>set run. isLegal x)"
    using closed_runs_legal by blast
qed

lemma scenario_runs:
  "closed_runs isLegal_scenario [legalA, legalB, illegalC, legalD] = [[legalA, legalB]]"
  "wrap_closed_runs isLegal_scenario [legalA, legalB, illegalC, legalD] n =
     [AsyncBlock n [legalA, legalB], illegalC, legalD]"
  "wrap_all_runs isLegal_scenario [legalA, legalB, illegalC, legalD] n =
     [AsyncBlock n [legalA, legalB], illegalC, AsyncBlock (n + 3) [legalD]]"
  by (simp_all add: closed_runs.simps(2) wrap_closed_runs.simps(2) wrap_all_runs.simps(2)
        isLegal_scenario_def legalA_def legalB_def illegalC_def legalD_def)

theorem matchAndRewriteBlock_wraps_closed_runs_witness:
  "matchAndRewriteBlock isLegal_scenario (Block 0 [] [legalA, legalB, illegalC, legalD])
       (rewriter_at 10) =
     (Success, Block 0 [] [AsyncBlock 10 [legalA, legalB], illegalC, legalD], rewriter_at 13)
   \<and> isLegal_scenario legalA \<and> isLegal_scenario legalB"
  using matchAndRewriteBlock_wraps_closed_runs
          [of isLegal_scenario 0 "[]" "[legalA, legalB, illegalC, legalD]" "rewriter_at 10"]
  by (simp add: scenario_runs rewriter_at_def del: matchAndRewriteBlock.simps)

text \<open>
  C2 as stated fails on the scenario of the specification: the block
  \<open>[legalA, legalB, illegalC, legalD]\<close> becomes \<open>[AsyncBlock{legalA, legalB}, illegalC, legalD]\<close>;
  \<open>legalD\<close>, a run still open at the end of the block, is not wrapped.
\<close>

theorem matchAndRewriteBlock_open_run_counterexample:
  "fst (snd (matchAndRewriteBlock isLegal_scenario
               (Block 0 [] [legalA, legalB, illegalC, legalD]) (rewriter_at 10))) =
     Block 0 [] [AsyncBlock 10 [legalA, legalB], illegalC, legalD]
   \<and> Block 0 [] [AsyncBlock 10 [legalA, legalB], illegalC, legalD] \<noteq>
       Block 0 [] (wrap_all_runs isLegal_scenario [legalA, legalB, illegalC, legalD] 10)
   \<and> wrap_all_runs isLegal_scenario [legalA, legalB, illegalC, legalD] 10 =
       [AsyncBlock 10 [legalA, legalB], illegalC, AsyncBlock 13 [legalD]]"
proof -
  have "\<forall>x\<in>set ([]::operation list). isLegal_scenario x" by simp
  from scan_refines [OF this, of "[]" "[legalA, legalB, illegalC, legalD]" Failure "rewriter_at 10"]
  have "fst (snd (matchAndRewriteBlock isLegal_scenario
               (Block 0 [] [legalA, legalB, illegalC, legalD]) (rewriter_at 10))) =
     Block 0 [] [AsyncBlock 10 [legalA, legalB], illegalC, legalD]"
    by (simp add: scenario_runs rewriter_at_def)
  moreover have "legalD \<noteq> AsyncBlock 13 [legalD]"
    by (simp add: legalD_def AsyncBlock_def)
  ultimately show ?thesis by (simp add: scenario_runs)
qed

section \<open>The walk and its callback\<close>

text \<open>What every call of the callback preserves, the walk preserves.\<close>

lemma walk_invariant:
  "(\<forall>p b s. I s \<longrightarrow> I (snd (snd (callback p b s)))) \<Longrightarrow> I s \<Longrightarrow>
     I (snd (walk callback op s))"
  and walk_regions_invariant: "(\<forall>p b s. I s \<longrightarrow> I (snd (snd (callback p b s)))) \<Longrightarrow> I s \<Longrightarrow>
     I (snd (walk_regions callback parent rs s))"
  and walk_blocks_invariant: "(\<forall>p b s. I s \<longrightarrow> I (snd (snd (callback p b s)))) \<Longrightarrow> I s \<Longrightarrow>
     I (snd (walk_blocks callback parent bs s))"
  and walk_ops_invariant: "(\<forall>p b s. I s \<longrightarrow> I (snd (snd (callback p b s)))) \<Longrightarrow> I s \<Longrightarrow>
     I (snd (walk_ops callback ops s))"
proof (induction callback op s and callback parent rs s and callback parent bs s
    and callback ops s rule: walk_walk_regions_walk_blocks_walk_ops.induct)
  case (1 callback i n os ts rs st)
  then show ?case by (auto simp: Let_def split: prod.splits)
next
  case (2 callback parent st)
  then show ?case by simp
next
  case (3 callback parent r rs st)
  obtain r' st1 where w1: "walk_blocks callback parent r st = (r', st1)"
    by (cases "walk_blocks callback parent r st")
  with 3 have "I st1" by fastforce
  with "3.IH"(2) [OF w1 [symmetric] refl "3.prems"(1)] w1 show ?case
    by (auto simp: Let_def split: prod.splits)
next
  case (4 callback parent st)
  then show ?case by simp
next
  case (5 callback parent b as ops bs st)
  obtain ops' st1 where w1: "walk_ops callback ops st = (ops', st1)"
    by (cases "walk_ops callback ops st")
  obtain w blk' st2 where c: "callback parent (Block b as ops') st1 = (w, blk', st2)"
    by (cases "callback parent (Block b as ops') st1")
  from 5 w1 have "I st1" by fastforce
  with "5.prems"(1) have "I (snd (snd (callback parent (Block b as ops') st1)))" by blast
  with c have "I st2" by simp
  with "5.IH"(2) [OF w1 [symmetric] refl c [symmetric] refl refl "5.prems"(1)] w1 c
  show ?case by (auto simp: Let_def split: prod.splits)
next
  case (6 callback st)
  then show ?case by simp
next
  case (7 callback op ops st)
  obtain op' st1 where w1: "walk callback op st = (op', st1)"
    by (cases "walk callback op st")
  with 7 have "I st1" by fastforce
  with "7.IH"(2) [OF w1 [symmetric] refl "7.prems"(1)] w1 show ?case
    by (auto simp: Let_def split: prod.splits)
qed

text \<open>The traced walk does what the walk does, and only appends to the log.\<close>

lemma walk_traced_sim:
  "callback = traced cb \<Longrightarrow> walk callback op s = (op', s') \<Longrightarrow>
     walk cb op (snd s) = (op', snd s')"
  and walk_regions_traced_sim: "callback = traced cb \<Longrightarrow> walk_regions callback p rs s = (rs', s') \<Longrightarrow>
     walk_regions cb p rs (snd s) = (rs', snd s')"
  and walk_blocks_traced_sim: "callback = traced cb \<Longrightarrow> walk_blocks callback p bs s = (bs', s') \<Longrightarrow>
     walk_blocks cb p bs (snd s) = (bs', snd s')"
  and walk_ops_traced_sim: "callback = traced cb \<Longrightarrow> walk_ops callback ops s = (ops', s') \<Longrightarrow>
     walk_ops cb ops (snd s) = (ops', snd s')"
proof (induction callback op s and callback p rs s and callback p bs s and callback ops s
    arbitrary: op' s' and rs' s' and bs' s' and ops' s'
    rule: walk_walk_regions_walk_blocks_walk_ops.induct)
  case (1 callback i n os ts rs st)
  then show ?case by (auto simp: Let_def split: prod.splits)
next
  case (2 callback parent st)
  then show ?case by simp
next
  case (3 callback parent r rs st)
  then show ?case by (auto simp: Let_def split: prod.splits)
next
  case (4 callback parent st)
  then show ?case by simp
next
  case (5 callback parent b as ops bs st)
  then show ?case by (auto simp: Let_def traced_def split: prod.splits)
next
  case (6 callback st)
  then show ?case by simp
next
  case (7 callback op ops st)
  then show ?case by (auto simp: Let_def split: prod.splits)
qed

lemma traced_keeps_log:
  "X \<subseteq> set (fst s) \<Longrightarrow> X \<subseteq> set (fst (snd (snd (traced cb p b s))))"
  by (auto simp: traced_def split: prod.splits)

lemma walk_traced_log_grows:
  shows "set (fst s) \<subseteq> set (fst (snd (walk (traced cb) op s)))"
    and walk_regions_traced_log_grows:
      "set (fst s) \<subseteq> set (fst (snd (walk_regions (traced cb) p rs s)))"
    and walk_blocks_traced_log_grows:
      "set (fst s) \<subseteq> set (fst (snd (walk_blocks (traced cb) p bs s)))"
    and walk_ops_traced_log_grows:
      "set (fst s) \<subseteq> set (fst (snd (walk_ops (traced cb) ops s)))"
proof -
  let ?I = "\<lambda>s'. set (fst s) \<subseteq> set (fst s')"
  have inv: "\<forall>p b s'. ?I s' \<longrightarrow> ?I (snd (snd (traced cb p b s')))"
    using traced_keeps_log by blast
  have start: "?I s" by simp
  show "set (fst s) \<subseteq> set (fst (snd (walk (traced cb) op s)))"
    by (rule walk_invariant [where I = ?I, OF inv start])
  show "set (fst s) \<subseteq> set (fst (snd (walk_regions (traced cb) p rs s)))"
    by (rule walk_regions_invariant [where I = ?I, OF inv start])
  show "set (fst s) \<subseteq> set (fst (snd (walk_blocks (traced cb) p bs s)))"
    by (rule walk_blocks_invariant [where I = ?I, OF inv start])
  show "set (fst s) \<subseteq> set (fst (snd (walk_ops (traced cb) ops s)))"
    by (rule walk_ops_invariant [where I = ?I, OF inv start])
qed

text \<open>If every logged call gave back its block and state, the walk changed nothing.\<close>

lemma walk_traced_unchanged:
  "callback = traced cb \<Longrightarrow> walk callback op s = (op', s') \<Longrightarrow>
     \<forall>c\<in>set (fst s'). unchanged_by cb c \<Longrightarrow> op' = op \<and> snd s' = snd s"
  and walk_regions_traced_unchanged: "callback = traced cb \<Longrightarrow> walk_regions callback p rs s = (rs', s') \<Longrightarrow>
     \<forall>c\<in>set (fst s'). unchanged_by cb c \<Longrightarrow> rs' = rs \<and> snd s' = snd s"
  and walk_blocks_traced_unchanged: "callback = traced cb \<Longrightarrow> walk_blocks callback p bs s = (bs', s') \<Longrightarrow>
     \<forall>c\<in>set (fst s'). unchanged_by cb c \<Longrightarrow> bs' = bs \<and> snd s' = snd s"
  and walk_ops_traced_unchanged: "callback = traced cb \<Longrightarrow> walk_ops callback ops s = (ops', s') \<Longrightarrow>
     \<forall>c\<in>set (fst s'). unchanged_by cb c \<Longrightarrow> ops' = ops \<and> snd s' = snd s"
proof (induction callback op s and callback p rs s and callback p bs s and callback ops s
    arbitrary: op' s' and rs' s' and bs' s' and ops' s'
    rule: walk_walk_regions_walk_blocks_walk_ops.induct)
  case (1 callback i n os ts rs st)
  then show ?case by (auto simp: Let_def split: prod.splits)
next
  case (2 callback parent st)
  then show ?case by simp
next
  case (3 callback parent r rs st)
  obtain r' st1 where w1: "walk_blocks callback parent r st = (r', st1)"
    by (cases "walk_blocks callback parent r st")
  obtain rs1 st2 where w2: "walk_regions callback parent rs st1 = (rs1, st2)"
    by (cases "walk_regions callback parent rs st1")
  from "3.prems"(2) w1 w2 have res: "rs' = r' # rs1" "s' = st2" by (simp_all add: Let_def)
  have "set (fst st1) \<subseteq> set (fst st2)"
    using walk_regions_traced_log_grows [of st1 cb parent rs] w2 "3.prems"(1) by simp
  with "3.prems"(3) res have u1: "\<forall>c\<in>set (fst st1). unchanged_by cb c" by blast
  from "3.IH"(1) [OF "3.prems"(1) w1 u1] have a: "r' = r" "snd st1 = snd st" by simp_all
  from "3.IH"(2) [OF w1 [symmetric] refl "3.prems"(1) w2] "3.prems"(3) res
  have "rs1 = rs" "snd st2 = snd st1" by simp_all
  with a res show ?case by simp
next
  case (4 callback parent st)
  then show ?case by simp
next
  case (5 callback parent b as ops bs st)
  obtain ops1 st1 where w1: "walk_ops callback ops st = (ops1, st1)"
    by (cases "walk_ops callback ops st")
  obtain w blk' st2 where c: "callback parent (Block b as ops1) st1 = (w, blk', st2)"
    by (cases "callback parent (Block b as ops1) st1")
  obtain bs1 st3 where w3: "walk_blocks callback parent bs st2 = (bs1, st3)"
    by (cases "walk_blocks callback parent bs st2")
  from "5.prems"(2) w1 c w3 have res: "bs' = blk' # bs1" "s' = st3" by (simp_all add: Let_def)
  have g3: "set (fst st2) \<subseteq> set (fst st3)"
    using walk_blocks_traced_log_grows [of st2 cb parent bs] w3 "5.prems"(1) by simp
  have log2: "fst st2 = fst st1 @ [(parent, Block b as ops1, snd st1)]"
    and call: "snd (cb parent (Block b as ops1) (snd st1)) = (blk', snd st2)"
    using c "5.prems"(1) by (auto simp: traced_def split: prod.splits)
  from log2 g3 "5.prems"(3) res have u1: "\<forall>c\<in>set (fst st1). unchanged_by cb c"
    and u: "unchanged_by cb (parent, Block b as ops1, snd st1)" by auto
  from "5.IH"(1) [OF "5.prems"(1) w1 u1] have a: "ops1 = ops" "snd st1 = snd st" by simp_all
  from u call have b: "blk' = Block b as ops1" "snd st2 = snd st1"
    by (simp_all add: unchanged_by_def)
  from "5.IH"(2) [OF w1 [symmetric] refl c [symmetric] refl refl "5.prems"(1) w3]
    "5.prems"(3) res
  have "bs1 = bs" "snd st3 = snd st2" by simp_all
  with a b res show ?case by simp
next
  case (6 callback st)
  then show ?case by simp
next
  case (7 callback op ops st)
  obtain op1 st1 where w1: "walk callback op st = (op1, st1)"
    by (cases "walk callback op st")
  obtain ops1 st2 where w2: "walk_ops callback ops st1 = (ops1, st2)"
    by (cases "walk_ops callback ops st1")
  from "7.prems"(2) w1 w2 have res: "ops' = op1 # ops1" "s' = st2" by (simp_all add: Let_def)
  have "set (fst st1) \<subseteq> set (fst st2)"
    using walk_ops_traced_log_grows [of st1 cb ops] w2 "7.prems"(1) by simp
  with "7.prems"(3) res have u1: "\<forall>c\<in>set (fst st1). unchanged_by cb c" by blast
  from "7.IH"(1) [OF "7.prems"(1) w1 u1] have a: "op1 = op" "snd st1 = snd st" by simp_all
  from "7.IH"(2) [OF w1 [symmetric] refl "7.prems"(1) w2] "7.prems"(3) res
  have "ops1 = ops" "snd st2 = snd st1" by simp_all
  with a res show ?case by simp
qed

section \<open>Atomicity of a wrapping attempt\<close>

lemma scan_Success:
  "fst (scan isLegal pre run rest Success rw) = Success"
  by (induction rest arbitrary: pre run rw) (simp_all add: Let_def split: prod.splits)

lemma scan_Failure_unchanged:
  "scan isLegal pre run rest result rw = (Failure, ops', rw') \<Longrightarrow>
     ops' = pre @ run @ rest \<and> rw' = rw"
proof (induction rest arbitrary: pre run result rw)
  case Nil
  then show ?case by simp
next
  case (Cons op rest)
  show ?case
  proof (cases "isLegal op")
    case True
    with Cons.prems have "scan isLegal pre (run @ [op]) rest result rw = (Failure, ops', rw')"
      by simp
    from Cons.IH [OF this] show ?thesis by simp
  next
    case False
    show ?thesis
    proof (cases "run = []")
      case True
      with False Cons.prems
      have "scan isLegal (pre @ [op]) [] rest result rw = (Failure, ops', rw')"
        by simp
      from Cons.IH [OF this] True show ?thesis by simp
    next
      case nonempty: False
      obtain exec rw1 where c: "create_AsyncExecuteOp rw = (exec, rw1)"
        by (cases "create_AsyncExecuteOp rw")
      with False nonempty Cons.prems
      have "scan isLegal (pre @ [splice_into_body run exec, op]) [] rest Success rw1 =
              (Failure, ops', rw')"
        by simp
      with scan_Success [of isLegal "pre @ [splice_into_body run exec, op]" "[]" rest rw1]
      show ?thesis by simp
    qed
  qed
qed

lemma matchAndRewriteBlock_Failure_unchanged:
  assumes "\<not> succeeded (fst (matchAndRewriteBlock isLegal blk rw))"
  shows "matchAndRewriteBlock isLegal blk rw = (Failure, blk, rw)"
proof -
  obtain b as ops where blk: "blk = Block b as ops" by (cases blk)
  obtain r ops' rw' where s: "scan isLegal [] [] ops Failure rw = (r, ops', rw')"
    by (cases "scan isLegal [] [] ops Failure rw")
  with assms blk have "r = Failure" by (cases r) simp_all
  with s scan_Failure_unchanged [of isLegal "[]" "[]" ops Failure rw ops' rw']
  show ?thesis using blk by simp
qed

lemma wrap_callback_unchanged:
  "\<not> sub_rewrite_succeeds isLegal call \<Longrightarrow> unchanged_by (wrap_callback isLegal) call"
proof -
  assume no: "\<not> sub_rewrite_succeeds isLegal call"
  obtain parent blk result rw where call: "call = (parent, blk, result, rw)"
    by (cases call)
  show ?thesis
  proof (cases "parent = AsyncExecuteOp")
    case True
    then show ?thesis by (simp add: call unchanged_by_def wrap_callback_def)
  next
    case False
    with no call have "\<not> succeeded (fst (matchAndRewriteBlock isLegal blk rw))"
      by (simp add: sub_rewrite_succeeds_def)
    from matchAndRewriteBlock_Failure_unchanged [OF this] False show ?thesis
      by (simp add: call unchanged_by_def wrap_callback_def)
  qed
qed

lemma traced_wrap_callback_flag:
  assumes "fst (snd s) = Success \<longleftrightarrow> (\<exists>c\<in>set (fst s). sub_rewrite_succeeds isLegal c)"
  shows "fst (snd (snd (snd (traced (wrap_callback isLegal) p b s)))) = Success \<longleftrightarrow>
     (\<exists>c\<in>set (fst (snd (snd (traced (wrap_callback isLegal) p b s)))).
        sub_rewrite_succeeds isLegal c)"
proof -
  obtain log result rw where s: "s = (log, result, rw)" by (cases s)
  obtain r blk' rw' where m: "matchAndRewriteBlock isLegal b rw = (r, blk', rw')"
    by (cases "matchAndRewriteBlock isLegal b rw")
  show ?thesis
    using assms
    by (cases r) (auto simp: s m traced_def wrap_callback_def sub_rewrite_succeeds_def)
qed

text \<open>
  C1. An attempt of the wrapping pattern on a function is atomic. If none of the
  block-level rewrites the walk runs succeeds, the attempt reports failure and returns
  the function (its operations and blocks, and with them every operand) and the rewriter
  exactly as they were. If one of them succeeds, the attempt reports success and returns
  the function as the walk left it, all rewrites of the walk included.
\<close>

theorem WrapInAsyncExecPattern_atomic:
  "WrapInAsyncExecPattern_matchAndRewrite isLegal op rw =
     (if \<exists>call\<in>set (callback_calls isLegal op rw). sub_rewrite_succeeds isLegal call
      then (Success,
            fst (walk (wrap_callback isLegal) op (Failure, rw)),
            snd (snd (walk (wrap_callback isLegal) op (Failure, rw))))
      else (Failure, op, rw))"
proof -
  obtain op' log result rw' where
    t: "walk (traced (wrap_callback isLegal)) op ([], Failure, rw) = (op', log, result, rw')"
    by (cases "walk (traced (wrap_callback isLegal)) op ([], Failure, rw)") auto
  from walk_traced_sim [OF refl t]
  have w: "walk (wrap_callback isLegal) op (Failure, rw) = (op', result, rw')" by simp
  have calls: "callback_calls isLegal op rw = log" by (simp add: callback_calls_def t)
  let ?I = "\<lambda>s. fst (snd s) = Success \<longleftrightarrow> (\<exists>c\<in>set (fst s). sub_rewrite_succeeds isLegal c)"
  have "?I (snd (walk (traced (wrap_callback isLegal)) op ([], Failure, rw)))"
  proof (rule walk_invariant [where I = ?I])
    show "\<forall>p b s. ?I s \<longrightarrow> ?I (snd (snd (traced (wrap_callback isLegal) p b s)))"
      using traced_wrap_callback_flag by blast
    show "?I ([], Failure, rw)" by simp
  qed
  with t have flag: "result = Success \<longleftrightarrow> (\<exists>c\<in>set log. sub_rewrite_succeeds isLegal c)"
    by simp
  show ?thesis
  proof (cases "\<exists>c\<in>set log. sub_rewrite_succeeds isLegal c")
    case True
    with flag have "result = Success" by simp
    with w True calls show ?thesis
      by (simp add: WrapInAsyncExecPattern_matchAndRewrite_def startRootUpdate_def
            finalizeRootUpdate_def)
  next
    case False
    with flag have f: "result = Failure" by (cases result) simp_all
    have "\<forall>c\<in>set (fst (log, result, rw')). unchanged_by (wrap_callback isLegal) c"
    proof
      fix c
      assume "c \<in> set (fst (log, result, rw'))"
      with False have "\<not> sub_rewrite_succeeds isLegal c" by simp
      then show "unchanged_by (wrap_callback isLegal) c" by (rule wrap_callback_unchanged)
    qed
    from walk_traced_unchanged [OF refl t this] have "op' = op" "rw' = rw" by simp_all
    with w f False calls show ?thesis
      by (simp add: WrapInAsyncExecPattern_matchAndRewrite_def startRootUpdate_def
            cancelRootUpdate_def)
  qed
qed

theorem WrapInAsyncExecPattern_atomic_witness:
  "WrapInAsyncExecPattern_matchAndRewrite isLegal_scenario plain_func (rewriter_at 10) =
     (Failure, plain_func, rewriter_at 10)
   \<and> WrapInAsyncExecPattern_matchAndRewrite isLegal_scenario wrap_func (rewriter_at 10) =
     (Success,
      Operation 0 (FuncOp [] []) [] []
        [[Block 5 [] [AsyncBlock 10 [legalA], illegalC, Operation 6 ReturnOp [] [] []]]],
      rewriter_at 13)"
proof -
  have calls1: "callback_calls isLegal_scenario plain_func (rewriter_at 10) =
      [(FuncOp [] [], Block 5 [] [illegalC, Operation 6 ReturnOp [] [] []], Failure,
        rewriter_at 10)]"
    by (simp add: callback_calls_def plain_func_def traced_def wrap_callback_def
          isLegal_scenario_def illegalC_def Let_def)
  have calls2: "callback_calls isLegal_scenario wrap_func (rewriter_at 10) =
      [(FuncOp [] [], Block 5 [] [legalA, illegalC, Operation 6 ReturnOp [] [] []], Failure,
        rewriter_at 10)]"
    by (simp add: callback_calls_def wrap_func_def traced_def wrap_callback_def
          isLegal_scenario_def illegalC_def legalA_def create_AsyncExecuteOp_def Let_def)
  have none: "\<not> (\<exists>call\<in>set (callback_calls isLegal_scenario plain_func (rewriter_at 10)).
                  sub_rewrite_succeeds isLegal_scenario call)"
    by (simp add: calls1 sub_rewrite_succeeds_def isLegal_scenario_def illegalC_def)
  have some: "\<exists>call\<in>set (callback_calls isLegal_scenario wrap_func (rewriter_at 10)).
                  sub_rewrite_succeeds isLegal_scenario call"
    by (simp add: calls2 sub_rewrite_succeeds_def isLegal_scenario_def illegalC_def legalA_def
          create_AsyncExecuteOp_def Let_def)
  have w: "walk (wrap_callback isLegal_scenario) wrap_func (Failure, rewriter_at 10) =
      (Operation 0 (FuncOp [] []) [] []
         [[Block 5 [] [AsyncBlock 10 [legalA], illegalC, Operation 6 ReturnOp [] [] []]]],
       Success, rewriter_at 13)"
    by (simp add: wrap_func_def wrap_callback_def isLegal_scenario_def illegalC_def legalA_def
          create_AsyncExecuteOp_def AsyncBlock_def rewriter_at_def Let_def)
  have "WrapInAsyncExecPattern_matchAndRewrite isLegal_scenario plain_func (rewriter_at 10) =
     (Failure, plain_func, rewriter_at 10)"
    using WrapInAsyncExecPattern_atomic
            [where isLegal = isLegal_scenario and op = plain_func and rw = "rewriter_at 10"]
          none
    by (simp only: if_False)
  moreover
  have "WrapInAsyncExecPattern_matchAndRewrite isLegal_scenario wrap_func (rewriter_at 10) =
     (Success,
      Operation 0 (FuncOp [] []) [] []
        [[Block 5 [] [AsyncBlock 10 [legalA], illegalC, Operation 6 ReturnOp [] [] []]]],
      rewriter_at 13)"
    using WrapInAsyncExecPattern_atomic
            [where isLegal = isLegal_scenario and op = wrap_func and rw = "rewriter_at 10"]
          some
    by (simp only: if_True w fst_conv snd_conv)
  ultimately show ?thesis by blast
qed

section \<open>No created Async Block directly inside an Async Block\<close>





section \<open>No Async Block directly inside a created one\<close>





section \<open>The body of an Async Block is not scanned\<close>








section \<open>When a view is folded\<close>

text \<open>
  C10. The folding of \<^verbatim>\<open>memref.view\<close> replaces the view by its source exactly when the
  source has the buffer type, a constant index operation of value 0 defines the byte
  shift and there are no sizes; in every other case it returns a match failure with a
  reason and records nothing else: no replacement, no erasure, no created operation.
\<close>

theorem FoldMemrefViewPattern_folds_exactly_when:
  "(getType source = BufferType \<and> getDefiningConstantIndex ir byte_shift = Some 0 \<and> sizes = [] \<longrightarrow>
      FoldMemrefViewPattern_matchAndRewrite ir op (source # byte_shift # sizes) rw =
        Some (Success, replaceOp op [source] rw))
   \<and> (\<not> (getType source = BufferType \<and> getDefiningConstantIndex ir byte_shift = Some 0 \<and>
          sizes = []) \<longrightarrow>
        (\<exists>reason. reason \<noteq> [] \<and>
           FoldMemrefViewPattern_matchAndRewrite ir op (source # byte_shift # sizes) rw =
             Some (Failure, rw\<lparr>diagnostics := diagnostics rw @ [reason]\<rparr>)))"
  by (auto simp: FoldMemrefViewPattern_matchAndRewrite_def notifyMatchFailure_def Let_def)

theorem FoldMemrefViewPattern_folds_exactly_when_witness:
  "FoldMemrefViewPattern_matchAndRewrite view_ir view_op
       [OpResult 7 0 BufferType, OpResult 30 0 IndexType] (conversion_rewriter_at 100) =
     Some (Success, (conversion_rewriter_at 100)\<lparr>replaced := [(2, [OpResult 7 0 BufferType])]\<rparr>)
   \<and> (\<exists>reason. reason \<noteq> [] \<and>
         FoldMemrefViewPattern_matchAndRewrite view_ir view_op
           [OpResult 7 0 BufferType, OpResult 31 0 IndexType] (conversion_rewriter_at 100) =
         Some (Failure, (conversion_rewriter_at 100)\<lparr>diagnostics := [reason]\<rparr>))"
proof -
  have zero: "getDefiningConstantIndex view_ir (OpResult 30 0 IndexType) = Some 0"
    and eight: "getDefiningConstantIndex view_ir (OpResult 31 0 IndexType) = Some 8"
    by (simp_all add: getDefiningConstantIndex_def view_ir_def)
  from FoldMemrefViewPattern_folds_exactly_when
         [where source = "OpResult 7 0 BufferType" and ir = view_ir
            and byte_shift = "OpResult 30 0 IndexType" and sizes = "[]" and op = view_op
            and rw = "conversion_rewriter_at 100"]
       zero
  have "FoldMemrefViewPattern_matchAndRewrite view_ir view_op
       [OpResult 7 0 BufferType, OpResult 30 0 IndexType] (conversion_rewriter_at 100) =
     Some (Success, (conversion_rewriter_at 100)\<lparr>replaced := [(2, [OpResult 7 0 BufferType])]\<rparr>)"
    by (simp add: replaceOp_def view_op_def conversion_rewriter_at_def)
  moreover
  from FoldMemrefViewPattern_folds_exactly_when
         [where source = "OpResult 7 0 BufferType" and ir = view_ir
            and byte_shift = "OpResult 31 0 IndexType" and sizes = "[]" and op = view_op
            and rw = "conversion_rewriter_at 100"]
       eight
  have "\<exists>reason. reason \<noteq> [] \<and>
         FoldMemrefViewPattern_matchAndRewrite view_ir view_op
           [OpResult 7 0 BufferType, OpResult 31 0 IndexType] (conversion_rewriter_at 100) =
         Some (Failure, (conversion_rewriter_at 100)\<lparr>diagnostics := [reason]\<rparr>)"
    by (simp add: conversion_rewriter_at_def)
  ultimately show ?thesis by blast
qed

section \<open>The rewritten signature\<close>

lemma replace_uses_block_fields:
  "block_id (replace_uses_block f b) = block_id b"
  "getArguments (replace_uses_block f b) = getArguments b"
  "getOperations (replace_uses_block f b) = map (replace_uses f) (getOperations b)"
  by (cases b; simp)+

lemma replace_uses_fields:
  "op_id (replace_uses f op) = op_id op"
  "name (replace_uses f op) = name op"
  "getResultTypes (replace_uses f op) = getResultTypes op"
  by (cases op; simp)+

lemma remove_terminator_last:
  "bs \<noteq> [] \<Longrightarrow> getOperations (last bs) \<noteq> [] \<Longrightarrow>
   getResultTypes (last (getOperations (last bs))) = [] \<Longrightarrow>
     remove_terminator bs =
       Some (butlast bs @
         [Block (block_id (last bs)) (getArguments (last bs)) (butlast (getOperations (last bs)))])"
proof (induction bs rule: remove_terminator.induct)
  case 1
  then show ?case by simp
next
  case (2 b as ops)
  then show ?case by (simp add: getTerminator_def back_of_def)
next
  case (3 blk v va)
  then show ?case by simp
qed

lemma block_args_drop:
  "drop 2 (map f [0..<Suc (Suc n)]) = map (\<lambda>k. f (Suc (Suc k))) [0..<n]"
proof -
  have "[0..<Suc (Suc n)] = 0 # Suc 0 # [Suc (Suc 0)..<Suc (Suc n)]"
    by (simp add: upt_conv_Cons del: upt_Suc)
  moreover have "[Suc (Suc 0)..<Suc (Suc n)] = map (\<lambda>k. Suc (Suc k)) [0..<n]"
  proof -
    have "map (\<lambda>k. Suc (Suc k)) [0..<n] = map Suc (map Suc [0..<n])" by simp
    also have "\<dots> = [Suc (Suc 0)..<Suc (Suc n)]" by (simp only: map_Suc_upt)
    finally show ?thesis by simp
  qed
  ultimately show ?thesis by (simp add: comp_def del: upt_Suc)
qed

lemma block_args_front: "map f [0..<Suc (Suc n)] ! 0 = f 0"
  by (simp add: upt_conv_Cons del: upt_Suc)

text \<open>The result of the pattern on a function without results, with its body made explicit.\<close>

lemma SignatureRewritePattern_success:
  assumes "name op = FuncOp inputs []" and "getBody op = Some (block # blocks)"
    and "length (getArguments block) = length inputs"
    and "getOperations (last (block # blocks)) \<noteq> []"
    and "getResultTypes (last (getOperations (last (block # blocks)))) = []"
  shows "\<exists>entry_ops rest.
     SignatureRewritePattern_matchAndRewrite op rw =
       Some (Success,
         Operation (op_id op) (FuncOp (ChainType # StreamType # inputs) [ChainType])
           (getOperands op) (getResultTypes op)
           [Block (next_id rw) (ChainType # StreamType # inputs)
              (entry_ops @
                 [Operation (next_id rw + 1) ReturnOp [BlockArgument (next_id rw) 0 ChainType] [] []])
            # rest],
         rw\<lparr>next_id := next_id rw + 2\<rparr>)
     \<and> length rest = length blocks
     \<and> (blocks = [] \<longrightarrow>
          entry_ops =
            map (replace_uses (replace_argument (block_id block)
                   (map (\<lambda>k. BlockArgument (next_id rw) (k + 2) (inputs ! k)) [0..<length inputs])))
              (butlast (getOperations block)))"
proof -
  define n where "n = next_id rw"
  define argValues where
    "argValues = map (\<lambda>k. BlockArgument n (k + 2) (inputs ! k)) [0..<length inputs]"
  define \<sigma> where "\<sigma> = replace_argument (block_id block) argValues"
  define ret where "ret = Operation (n + 1) ReturnOp [BlockArgument n 0 ChainType] [] []"
  define merged where
    "merged = map (replace_uses_block \<sigma>)
       (Block n (ChainType # StreamType # inputs) (getOperations block) # blocks)"
  have args: "drop 2 (map (\<lambda>k. BlockArgument n k ((ChainType # StreamType # inputs) ! k))
                 [0..<Suc (Suc (length inputs))]) = argValues"
    unfolding argValues_def by (simp add: block_args_drop del: upt_Suc)
  have front: "map (\<lambda>k. BlockArgument n k ((ChainType # StreamType # inputs) ! k))
                 [0..<Suc (Suc (length inputs))] ! 0 = BlockArgument n 0 ChainType"
    by (simp add: block_args_front del: upt_Suc)
  have merge: "mergeBlocks block (Block n (ChainType # StreamType # inputs) []) argValues blocks =
                 Some merged"
    using assms(3) by (simp add: mergeBlocks_def merged_def \<sigma>_def argValues_def)
  have last_merged: "last merged = replace_uses_block \<sigma>
      (last (Block n (ChainType # StreamType # inputs) (getOperations block) # blocks))"
    unfolding merged_def by (simp add: last_map)
  have last_ops: "getOperations (last merged) =
      map (replace_uses \<sigma>) (getOperations (last (block # blocks)))"
    unfolding last_merged by (cases blocks) (simp_all add: replace_uses_block_fields)
  have ne: "merged \<noteq> []" by (simp add: merged_def)
  have ops_ne: "getOperations (last merged) \<noteq> []" using last_ops assms(4) by simp
  have no_res: "getResultTypes (last (getOperations (last merged))) = []"
    using last_ops assms(4,5) by (simp add: last_map replace_uses_fields)
  define body' where
    "body' = butlast merged @
       [Block (block_id (last merged)) (getArguments (last merged))
          (butlast (getOperations (last merged)))]"
  have rt: "remove_terminator merged = Some body'"
    unfolding body'_def by (rule remove_terminator_last [OF ne ops_ne no_res])
  have result: "SignatureRewritePattern_matchAndRewrite op rw =
       Some (Success,
         Operation (op_id op) (FuncOp (ChainType # StreamType # inputs) [ChainType])
           (getOperands op) (getResultTypes op) [insert_at_end_of_entry ret body'],
         rw\<lparr>next_id := next_id rw + 2\<rparr>)"
    using assms(1,2) merge rt
    by (simp add: SignatureRewritePattern_matchAndRewrite_def Let_def args front
          n_def [symmetric] ret_def del: upt_Suc)
  show ?thesis
  proof (cases blocks)
    case Nil
    then have "body' = [Block n (ChainType # StreamType # inputs)
                          (map (replace_uses \<sigma>) (butlast (getOperations block)))]"
      by (simp add: body'_def merged_def map_butlast)
    then have "insert_at_end_of_entry ret body' =
        [Block n (ChainType # StreamType # inputs)
           (map (replace_uses \<sigma>) (butlast (getOperations block)) @ [ret])]"
      by simp
    with result Nil show ?thesis
      by (simp add: n_def ret_def \<sigma>_def argValues_def)
  next
    case (Cons b bs)
    then have "butlast merged =
        Block n (ChainType # StreamType # inputs) (map (replace_uses \<sigma>) (getOperations block))
        # butlast (map (replace_uses_block \<sigma>) blocks)"
      by (simp add: merged_def)
    then have "insert_at_end_of_entry ret body' =
        Block n (ChainType # StreamType # inputs)
          (map (replace_uses \<sigma>) (getOperations block) @ [ret])
        # butlast (map (replace_uses_block \<sigma>) blocks) @
          [Block (block_id (last merged)) (getArguments (last merged))
             (butlast (getOperations (last merged)))]"
      by (simp add: body'_def)
    moreover have "length (butlast (map (replace_uses_block \<sigma>) blocks) @
          [Block (block_id (last merged)) (getArguments (last merged))
             (butlast (getOperations (last merged)))]) = length blocks"
      using Cons by simp
    ultimately show ?thesis using result Cons
      by (auto simp: n_def ret_def)
  qed
qed

text \<open>
  A function with a non-empty result list gets a match failure and is returned as it was.
\<close>

lemma SignatureRewritePattern_declines_results:
  assumes "name op = FuncOp inputs results" and "results \<noteq> []"
  shows "SignatureRewritePattern_matchAndRewrite op rw =
        Some (Failure, op, rw\<lparr>diagnostics := diagnostics rw @ [''Expected no result'']\<rparr>)"
  using assms by (simp add: SignatureRewritePattern_matchAndRewrite_def notifyMatchFailure_def)

text \<open>
  A function with an empty result list whose body is one block (with one argument for
  each parameter, ending in a terminator without results) gets a chain and then a stream
  parameter in front of its parameters and the result list of one chain; its block has
  the two new arguments in front, its operations are the old ones with the uses of the
  old arguments renumbered, and its terminator is a return of the new chain argument,
  argument 0.
\<close>

lemma SignatureRewritePattern_one_block:
  assumes "name op = FuncOp inputs []" and "getBody op = Some [block]"
    and "length (getArguments block) = length inputs"
    and "getOperations block \<noteq> []"
    and "getResultTypes (last (getOperations block)) = []"
  shows "SignatureRewritePattern_matchAndRewrite op rw =
       Some (Success,
         Operation (op_id op) (FuncOp (ChainType # StreamType # inputs) [ChainType])
           (getOperands op) (getResultTypes op)
           [[Block (next_id rw) (ChainType # StreamType # inputs)
               (map (replace_uses (replace_argument (block_id block)
                       (map (\<lambda>k. BlockArgument (next_id rw) (k + 2) (inputs ! k))
                          [0..<length inputs])))
                  (butlast (getOperations block)) @
                [Operation (next_id rw + 1) ReturnOp [BlockArgument (next_id rw) 0 ChainType]
                   [] []])]],
         rw\<lparr>next_id := next_id rw + 2\<rparr>)"
  using SignatureRewritePattern_success [of op inputs block "[]" rw] assms by auto

text \<open>
  C3. On a function with an empty result list whose body has more than one block, the
  signature rewrite does not rewrite the terminator: the return of the new chain argument
  is created where the creation of the entry block left the insertion point, at the end
  of the entry block, and the terminator of the last block is removed. For the function
  of two blocks \<open>two_block_func\<close> the entry block ends in its branch followed by the new
  return, and the last block is left without a terminator.
\<close>

theorem SignatureRewritePattern_two_blocks_terminator:
  "SignatureRewritePattern_matchAndRewrite two_block_func (rewriter_at 100) =
     Some (Success,
       Operation 0 (FuncOp [ChainType, StreamType] [ChainType]) [] []
         [[Block 100 [ChainType, StreamType]
             [Operation 2 (OtherOp 1) [] [] [],
              Operation 101 ReturnOp [BlockArgument 100 0 ChainType] [] []],
           Block 3 [] [Operation 4 (OtherOp 2) [] [] []]]],
       rewriter_at 102)"
  by (simp add: SignatureRewritePattern_matchAndRewrite_def two_block_func_def getBody_def
        mergeBlocks_def getTerminator_def back_of_def rewriter_at_def Let_def)

section \<open>Functions in target form\<close>






section \<open>The patterns add to the records and read none\<close>





















section \<open>The operand loop of the wait lowering\<close>



lemma check_operands_diagnostics:
  "diagnostics (snd (check_operands ir operands chain stream events rw)) = diagnostics rw"
  by (induction operands arbitrary: chain stream events rw)
     (auto split: option.splits simp: eraseOp_def)






lemma wait_func_accessors:
  "name wait_func = FuncOp [ChainType, StreamType] [ChainType]"
  "back_getTerminator wait_func = Some (Operation 3 ReturnOp [BlockArgument 1 0 ChainType] [] [])"
  "getArgument wait_func 0 = Some (BlockArgument 1 0 ChainType)"
  "getArgument wait_func 1 = Some (BlockArgument 1 1 StreamType)"
  "getArgument wait_func (Suc 0) = Some (BlockArgument (Suc 0) (Suc 0) StreamType)"
  by (simp_all add: wait_func_def back_getTerminator_def getBody_def back_of_def
        getTerminator_def getArgument_def front_of_def)

lemma wait_ir_casts:
  "GetDefiningCastOp wait_ir (OpResult 30 0 AsyncTokenType) =
     Some (Operation 30 CastOp [OpResult 40 0 ChainType, OpResult 41 0 StreamType]
             [AsyncTokenType] [])"
  "GetDefiningCastOp wait_ir (OpResult 31 0 AsyncTokenType) =
     Some (Operation 31 CastOp [OpResult 42 0 ChainType, OpResult 43 0 StreamType]
             [AsyncTokenType] [])"
  "GetDefiningCastOp wait_ir (OpResult 50 0 AsyncTokenType) = None"
  by (simp_all add: GetDefiningCastOp_def wait_ir_def)










section \<open>Lowering an asynchronous wait inside an execute region\<close>

text \<open>
  C5. A wait with exactly two event operands that has an async token and lies inside an
  \<^verbatim>\<open>async.execute\<close> region, in a function whose first two parameters are a chain and a
  stream and whose terminator returns a chain, is lowered to: a new chain, the context
  of the ambient stream (the function's stream argument), exactly one new stream created
  from that context, exactly two stream-wait operations on the new stream, the second
  taking the chain the first produces, and a cast of the last chain and the new stream
  to a token, which replaces the wait. No event is created or recorded.
\<close>

theorem WaitOpRewritePattern_two_events_async:
  assumes "name f = FuncOp inputs results"
    and "length inputs \<ge> 2" and "inputs ! 0 = ChainType" and "inputs ! 1 = StreamType"
    and "back_getTerminator f = Some terminator"
    and "getOperands terminator \<noteq> []" and "getType (getOperands terminator ! 0) = ChainType"
    and "getArgument f 0 = Some chain" and "getArgument f 1 = Some stream"
    and "getType e1 = EventType" and "getType e2 = EventType"
    and "length (getOperands op) = 2"
    and "asyncToken op \<noteq> None" and "execute_op \<noteq> None"
  shows "WaitOpRewritePattern_matchAndRewrite ir (Some f) execute_op op [e1, e2] rw =
     Some (Success,
       rw\<lparr>next_id := next_id rw + 6,
          inserted := inserted rw @
            [Operation (next_id rw) NewChainOp [] [ChainType] [],
             Operation (next_id rw + 1) StreamGetContextOp [stream] [ContextType] [],
             Operation (next_id rw + 2) StreamCreateOp [OpResult (next_id rw + 1) 0 ContextType]
               [StreamType] [],
             Operation (next_id rw + 3) StreamWaitOp
               [OpResult (next_id rw + 2) 0 StreamType, e1, OpResult (next_id rw) 0 ChainType]
               [ChainType] [],
             Operation (next_id rw + 4) StreamWaitOp
               [OpResult (next_id rw + 2) 0 StreamType, e2,
                OpResult (next_id rw + 3) 0 ChainType]
               [ChainType] [],
             Operation (next_id rw + 5) CastOp
               [OpResult (next_id rw + 4) 0 ChainType, OpResult (next_id rw + 2) 0 StreamType]
               [AsyncTokenType] []],
          replaced := replaced rw @ [(op_id op, [OpResult (next_id rw + 5) 0 AsyncTokenType])]\<rparr>)"
proof -
  have "WaitOp_rewrite ir terminator chain stream execute_op op [e1, e2] rw =
     (Success,
       rw\<lparr>next_id := next_id rw + 6,
          inserted := inserted rw @
            [Operation (next_id rw) NewChainOp [] [ChainType] [],
             Operation (next_id rw + 1) StreamGetContextOp [stream] [ContextType] [],
             Operation (next_id rw + 2) StreamCreateOp [OpResult (next_id rw + 1) 0 ContextType]
               [StreamType] [],
             Operation (next_id rw + 3) StreamWaitOp
               [OpResult (next_id rw + 2) 0 StreamType, e1, OpResult (next_id rw) 0 ChainType]
               [ChainType] [],
             Operation (next_id rw + 4) StreamWaitOp
               [OpResult (next_id rw + 2) 0 StreamType, e2,
                OpResult (next_id rw + 3) 0 ChainType]
               [ChainType] [],
             Operation (next_id rw + 5) CastOp
               [OpResult (next_id rw + 4) 0 ChainType, OpResult (next_id rw + 2) 0 StreamType]
               [AsyncTokenType] []],
          replaced := replaced rw @ [(op_id op, [OpResult (next_id rw + 5) 0 AsyncTokenType])]\<rparr>)"
    using assms(10-14)
    by (simp add: WaitOp_rewrite_def WaitOp_lower_def new_chain_and_stream_def create_def replaceOp_def Let_def)
  then show ?thesis
    using assms(1-9)
    by (simp add: WaitOpRewritePattern_matchAndRewrite_def)
qed

theorem WaitOpRewritePattern_two_events_async_witness:
  "WaitOpRewritePattern_matchAndRewrite wait_ir (Some wait_func) execute_parent
       (Operation 2 WaitOp [OpResult 20 0 AsyncTokenType, OpResult 21 0 AsyncTokenType]
          [AsyncTokenType] [])
       [OpResult 20 0 EventType, OpResult 21 0 EventType] (conversion_rewriter_at 100) =
     Some (Success,
       \<lparr>next_id = 106, diagnostics = [],
          inserted =
            [Operation 100 NewChainOp [] [ChainType] [],
             Operation 101 StreamGetContextOp [BlockArgument 1 1 StreamType] [ContextType] [],
             Operation 102 StreamCreateOp [OpResult 101 0 ContextType] [StreamType] [],
             Operation 103 StreamWaitOp
               [OpResult 102 0 StreamType, OpResult 20 0 EventType, OpResult 100 0 ChainType]
               [ChainType] [],
             Operation 104 StreamWaitOp
               [OpResult 102 0 StreamType, OpResult 21 0 EventType, OpResult 103 0 ChainType]
               [ChainType] [],
             Operation 105 CastOp [OpResult 104 0 ChainType, OpResult 102 0 StreamType]
               [AsyncTokenType] []],
          erased = [], replaced = [(2, [OpResult 105 0 AsyncTokenType])], updated = []\<rparr>)"
  using WaitOpRewritePattern_two_events_async
          [where f = wait_func and inputs = "[ChainType, StreamType]" and results = "[ChainType]"
             and terminator = "Operation 3 ReturnOp [BlockArgument 1 0 ChainType] [] []"
             and chain = "BlockArgument 1 0 ChainType" and stream = "BlockArgument 1 1 StreamType"
             and ?e1.0 = "OpResult 20 0 EventType" and ?e2.0 = "OpResult 21 0 EventType"
             and op = "Operation 2 WaitOp [OpResult 20 0 AsyncTokenType, OpResult 21 0 AsyncTokenType]
                         [AsyncTokenType] []"
             and execute_op = execute_parent and ir = wait_ir
             and rw = "conversion_rewriter_at 100"]
  by (simp add: wait_func_accessors asyncToken_def execute_parent_def conversion_rewriter_at_def)

section \<open>An asynchronous wait without events\<close>

text \<open>
  C6, as amended. For a wait that has an async token and lies inside an
  \<^verbatim>\<open>async.execute\<close> region, whose operand loop ends with the ambient pair
  \<open>(chain, stream)\<close> and no event, the lowering creates, in this order: a new chain; the
  context of the ambient stream; an event on that context; the record of that event on
  the ambient stream against the new chain (the ambient chain is not used); the new stream
  on the context; the wait of the new stream on the event, against the chain the record
  produced; and the cast of the last chain and the new stream that replaces the wait.
\<close>

theorem WaitOpRewritePattern_no_events_async:
  assumes "name f = FuncOp inputs results"
    and "length inputs \<ge> 2" and "inputs ! 0 = ChainType" and "inputs ! 1 = StreamType"
    and "back_getTerminator f = Some terminator"
    and "getOperands terminator \<noteq> []" and "getType (getOperands terminator ! 0) = ChainType"
    and "getArgument f 0 = Some chain0" and "getArgument f 1 = Some stream0"
    and "check_operands ir operands chain0 stream0 [] rw = (Some (chain, stream, []), rw1)"
    and "length (getOperands op) \<le> 1"
    and "asyncToken op \<noteq> None" and "execute_op \<noteq> None"
  shows "WaitOpRewritePattern_matchAndRewrite ir (Some f) execute_op op operands rw =
     Some (Success,
       rw1\<lparr>next_id := next_id rw1 + 7,
          inserted := inserted rw1 @
            [Operation (next_id rw1) NewChainOp [] [ChainType] [],
             Operation (next_id rw1 + 1) StreamGetContextOp [stream] [ContextType] [],
             Operation (next_id rw1 + 2) EventCreateOp [OpResult (next_id rw1 + 1) 0 ContextType]
               [EventType] [],
             Operation (next_id rw1 + 3) EventRecordOp
               [OpResult (next_id rw1 + 2) 0 EventType, stream, OpResult (next_id rw1) 0 ChainType]
               [ChainType] [],
             Operation (next_id rw1 + 4) StreamCreateOp [OpResult (next_id rw1 + 1) 0 ContextType]
               [StreamType] [],
             Operation (next_id rw1 + 5) StreamWaitOp
               [OpResult (next_id rw1 + 4) 0 StreamType, OpResult (next_id rw1 + 2) 0 EventType,
                OpResult (next_id rw1 + 3) 0 ChainType]
               [ChainType] [],
             Operation (next_id rw1 + 6) CastOp
               [OpResult (next_id rw1 + 5) 0 ChainType, OpResult (next_id rw1 + 4) 0 StreamType]
               [AsyncTokenType] []],
          replaced := replaced rw1 @
            [(op_id op, [OpResult (next_id rw1 + 6) 0 AsyncTokenType])]\<rparr>)"
proof -
  have "WaitOp_rewrite ir terminator chain0 stream0 execute_op op operands rw =
     (Success,
       rw1\<lparr>next_id := next_id rw1 + 7,
          inserted := inserted rw1 @
            [Operation (next_id rw1) NewChainOp [] [ChainType] [],
             Operation (next_id rw1 + 1) StreamGetContextOp [stream] [ContextType] [],
             Operation (next_id rw1 + 2) EventCreateOp [OpResult (next_id rw1 + 1) 0 ContextType]
               [EventType] [],
             Operation (next_id rw1 + 3) EventRecordOp
               [OpResult (next_id rw1 + 2) 0 EventType, stream, OpResult (next_id rw1) 0 ChainType]
               [ChainType] [],
             Operation (next_id rw1 + 4) StreamCreateOp [OpResult (next_id rw1 + 1) 0 ContextType]
               [StreamType] [],
             Operation (next_id rw1 + 5) StreamWaitOp
               [OpResult (next_id rw1 + 4) 0 StreamType, OpResult (next_id rw1 + 2) 0 EventType,
                OpResult (next_id rw1 + 3) 0 ChainType]
               [ChainType] [],
             Operation (next_id rw1 + 6) CastOp
               [OpResult (next_id rw1 + 5) 0 ChainType, OpResult (next_id rw1 + 4) 0 StreamType]
               [AsyncTokenType] []],
          replaced := replaced rw1 @
            [(op_id op, [OpResult (next_id rw1 + 6) 0 AsyncTokenType])]\<rparr>)"
    using assms(10-13)
    by (simp add: WaitOp_rewrite_def WaitOp_lower_def new_chain_and_stream_def create_def replaceOp_def Let_def)
  then show ?thesis
    using assms(1-9)
    by (simp add: WaitOpRewritePattern_matchAndRewrite_def)
qed

theorem WaitOpRewritePattern_no_events_async_witness:
  "WaitOpRewritePattern_matchAndRewrite wait_ir (Some wait_func) execute_parent
       (Operation 2 WaitOp [OpResult 30 0 AsyncTokenType] [AsyncTokenType] [])
       [OpResult 30 0 AsyncTokenType] (conversion_rewriter_at 100) =
     Some (Success,
       \<lparr>next_id = 107, diagnostics = [],
          inserted =
            [Operation 100 NewChainOp [] [ChainType] [],
             Operation 101 StreamGetContextOp [OpResult 41 0 StreamType] [ContextType] [],
             Operation 102 EventCreateOp [OpResult 101 0 ContextType] [EventType] [],
             Operation 103 EventRecordOp
               [OpResult 102 0 EventType, OpResult 41 0 StreamType, OpResult 100 0 ChainType]
               [ChainType] [],
             Operation 104 StreamCreateOp [OpResult 101 0 ContextType] [StreamType] [],
             Operation 105 StreamWaitOp
               [OpResult 104 0 StreamType, OpResult 102 0 EventType, OpResult 103 0 ChainType]
               [ChainType] [],
             Operation 106 CastOp [OpResult 105 0 ChainType, OpResult 104 0 StreamType]
               [AsyncTokenType] []],
          erased = [30], replaced = [(2, [OpResult 106 0 AsyncTokenType])], updated = []\<rparr>)"
proof -
  have c: "check_operands wait_ir [OpResult 30 0 AsyncTokenType] (BlockArgument 1 0 ChainType)
             (BlockArgument 1 1 StreamType) [] (conversion_rewriter_at 100) =
           (Some (OpResult 40 0 ChainType, OpResult 41 0 StreamType, []),
            (conversion_rewriter_at 100)\<lparr>erased := [30]\<rparr>)"
    by (simp add: wait_ir_casts eraseOp_def conversion_rewriter_at_def)
  from WaitOpRewritePattern_no_events_async
         [where f = wait_func and inputs = "[ChainType, StreamType]" and results = "[ChainType]"
            and terminator = "Operation 3 ReturnOp [BlockArgument 1 0 ChainType] [] []"
            and ?chain0.0 = "BlockArgument 1 0 ChainType"
            and ?stream0.0 = "BlockArgument 1 1 StreamType"
            and op = "Operation 2 WaitOp [OpResult 30 0 AsyncTokenType] [AsyncTokenType] []"
            and execute_op = execute_parent, OF _ _ _ _ _ _ _ _ _ c]
  show ?thesis
    by (simp add: wait_func_accessors asyncToken_def execute_parent_def conversion_rewriter_at_def)
qed

text \<open>
  C6 as stated fails on a wait without operands in \<open>wait_func\<close>: the event is recorded on
  the ambient stream (block argument 1) against the chain made by the new-chain operation
  100, not against the ambient chain (block argument 0).
\<close>

theorem WaitOpRewritePattern_records_on_new_chain_counterexample:
  "WaitOpRewritePattern_matchAndRewrite wait_ir (Some wait_func) execute_parent
       (Operation 2 WaitOp [] [AsyncTokenType] []) [] (conversion_rewriter_at 100) =
     Some (Success,
       \<lparr>next_id = 107, diagnostics = [],
          inserted =
            [Operation 100 NewChainOp [] [ChainType] [],
             Operation 101 StreamGetContextOp [BlockArgument 1 1 StreamType] [ContextType] [],
             Operation 102 EventCreateOp [OpResult 101 0 ContextType] [EventType] [],
             Operation 103 EventRecordOp
               [OpResult 102 0 EventType, BlockArgument 1 1 StreamType, OpResult 100 0 ChainType]
               [ChainType] [],
             Operation 104 StreamCreateOp [OpResult 101 0 ContextType] [StreamType] [],
             Operation 105 StreamWaitOp
               [OpResult 104 0 StreamType, OpResult 102 0 EventType, OpResult 103 0 ChainType]
               [ChainType] [],
             Operation 106 CastOp [OpResult 105 0 ChainType, OpResult 104 0 StreamType]
               [AsyncTokenType] []],
          erased = [], replaced = [(2, [OpResult 106 0 AsyncTokenType])], updated = []\<rparr>)
   \<and> getArgument wait_func 0 = Some (BlockArgument 1 0 ChainType)
   \<and> OpResult 100 0 ChainType \<noteq> BlockArgument 1 0 ChainType"
  by (simp add: WaitOpRewritePattern_matchAndRewrite_def wait_func_accessors WaitOp_rewrite_def WaitOp_lower_def
        new_chain_and_stream_def create_def replaceOp_def asyncToken_def execute_parent_def
        conversion_rewriter_at_def Let_def)

section \<open>When the wait lowering fails\<close>



section \<open>The token a yield lowering replaces\<close>

lemma any_of_operands_none:
  "\<forall>v\<in>set operands. GetDefiningCastOp ir v = None \<Longrightarrow>
     any_of_operands ir op operands idx rw = (False, rw)"
  by (induction operands arbitrary: idx) simp_all

lemma any_of_operands_first:
  assumes "\<forall>u\<in>set pre. GetDefiningCastOp ir u = None"
    and "GetDefiningCastOp ir v = Some cast_op"
  shows "any_of_operands ir op (pre @ v # post) idx rw =
     (True,
      rw\<lparr>next_id := next_id rw + 3,
         inserted := inserted rw @
           [Operation (next_id rw) StreamGetContextOp [getOperands cast_op ! 1] [ContextType] [],
            Operation (next_id rw + 1) EventCreateOp [OpResult (next_id rw) 0 ContextType]
              [EventType] [],
            Operation (next_id rw + 2) EventRecordOp
              [OpResult (next_id rw + 1) 0 EventType, getOperands cast_op ! 1,
               getOperands cast_op ! 0] [ChainType] []],
         updated := updated rw @
           [setOperand op (idx + length pre) (OpResult (next_id rw + 1) 0 EventType)],
         erased := erased rw @ [op_id cast_op]\<rparr>)"
  using assms
proof (induction pre arbitrary: idx)
  case Nil
  then show ?case
    by (simp add: create_def updateRootInPlace_def eraseOp_def Let_def)
next
  case (Cons u pre)
  from Cons.prems have "GetDefiningCastOp ir u = None" by simp
  moreover from Cons.IH [of "idx + 1"] Cons.prems
  have "any_of_operands ir op (pre @ v # post) (idx + 1) rw =
     (True,
      rw\<lparr>next_id := next_id rw + 3,
         inserted := inserted rw @
           [Operation (next_id rw) StreamGetContextOp [getOperands cast_op ! 1] [ContextType] [],
            Operation (next_id rw + 1) EventCreateOp [OpResult (next_id rw) 0 ContextType]
              [EventType] [],
            Operation (next_id rw + 2) EventRecordOp
              [OpResult (next_id rw + 1) 0 EventType, getOperands cast_op ! 1,
               getOperands cast_op ! 0] [ChainType] []],
         updated := updated rw @
           [setOperand op (idx + 1 + length pre) (OpResult (next_id rw + 1) 0 EventType)],
         erased := erased rw @ [op_id cast_op]\<rparr>)"
    by simp
  ultimately show ?case by simp
qed

text \<open>
  C4, as amended. The yield lowering handles the first operand that is a synchronization
  token (a value whose defining cast has a chain and a stream as its two operands): it
  creates the context of that stream, an event on it and exactly one event-record
  operation recording the event on that stream against that chain, replaces that operand
  of the yield by the event and erases the cast; the operands after it are not looked at.
  A yield none of whose operands qualifies gets a match failure and nothing else changes.
\<close>

theorem YieldOpRewritePattern_lowers_first_token:
  "((\<forall>v\<in>set operands. GetDefiningCastOp ir v = None) \<longrightarrow>
      YieldOpRewritePattern_matchAndRewrite ir op operands rw =
        (Failure, rw\<lparr>diagnostics := diagnostics rw @ [''no cast to token operand'']\<rparr>))
   \<and> (operands = pre @ v # post \<and> (\<forall>u\<in>set pre. GetDefiningCastOp ir u = None) \<and>
        GetDefiningCastOp ir v = Some cast_op \<longrightarrow>
      YieldOpRewritePattern_matchAndRewrite ir op operands rw =
        (Success,
         rw\<lparr>next_id := next_id rw + 3,
            inserted := inserted rw @
              [Operation (next_id rw) StreamGetContextOp [getOperands cast_op ! 1]
                 [ContextType] [],
               Operation (next_id rw + 1) EventCreateOp [OpResult (next_id rw) 0 ContextType]
                 [EventType] [],
               Operation (next_id rw + 2) EventRecordOp
                 [OpResult (next_id rw + 1) 0 EventType, getOperands cast_op ! 1,
                  getOperands cast_op ! 0] [ChainType] []],
            updated := updated rw @
              [setOperand op (length pre) (OpResult (next_id rw + 1) 0 EventType)],
            erased := erased rw @ [op_id cast_op]\<rparr>))"
proof (intro conjI impI)
  assume "\<forall>v\<in>set operands. GetDefiningCastOp ir v = None"
  from any_of_operands_none [OF this, of op 0 rw]
  show "YieldOpRewritePattern_matchAndRewrite ir op operands rw =
        (Failure, rw\<lparr>diagnostics := diagnostics rw @ [''no cast to token operand'']\<rparr>)"
    by (simp add: YieldOpRewritePattern_matchAndRewrite_def notifyMatchFailure_def)
next
  assume a: "operands = pre @ v # post \<and> (\<forall>u\<in>set pre. GetDefiningCastOp ir u = None) \<and>
        GetDefiningCastOp ir v = Some cast_op"
  then have "\<forall>u\<in>set pre. GetDefiningCastOp ir u = None"
    and "GetDefiningCastOp ir v = Some cast_op" by simp_all
  from any_of_operands_first [OF this, of op post 0 rw] a
  show "YieldOpRewritePattern_matchAndRewrite ir op operands rw =
        (Success,
         rw\<lparr>next_id := next_id rw + 3,
            inserted := inserted rw @
              [Operation (next_id rw) StreamGetContextOp [getOperands cast_op ! 1]
                 [ContextType] [],
               Operation (next_id rw + 1) EventCreateOp [OpResult (next_id rw) 0 ContextType]
                 [EventType] [],
               Operation (next_id rw + 2) EventRecordOp
                 [OpResult (next_id rw + 1) 0 EventType, getOperands cast_op ! 1,
                  getOperands cast_op ! 0] [ChainType] []],
            updated := updated rw @
              [setOperand op (length pre) (OpResult (next_id rw + 1) 0 EventType)],
            erased := erased rw @ [op_id cast_op]\<rparr>)"
    by (simp add: YieldOpRewritePattern_matchAndRewrite_def)
qed

lemma yield_ir_casts:
  "GetDefiningCastOp yield_ir (OpResult 30 0 AsyncTokenType) =
     Some (Operation 30 CastOp [OpResult 40 0 ChainType, OpResult 41 0 StreamType]
             [AsyncTokenType] [])"
  "GetDefiningCastOp yield_ir (OpResult 31 0 AsyncTokenType) =
     Some (Operation 31 CastOp [OpResult 42 0 ChainType, OpResult 43 0 StreamType]
             [AsyncTokenType] [])"
  "GetDefiningCastOp yield_ir (OpResult 50 0 EventType) = None"
  by (simp_all add: GetDefiningCastOp_def yield_ir_def)

theorem YieldOpRewritePattern_lowers_first_token_witness:
  "YieldOpRewritePattern_matchAndRewrite yield_ir yield_op [OpResult 50 0 EventType]
       (conversion_rewriter_at 100) =
     (Failure, (conversion_rewriter_at 100)\<lparr>diagnostics := [''no cast to token operand'']\<rparr>)
   \<and> YieldOpRewritePattern_matchAndRewrite yield_ir yield_op
       [OpResult 50 0 EventType, OpResult 30 0 AsyncTokenType] (conversion_rewriter_at 100) =
     (Success,
      \<lparr>next_id = 103, diagnostics = [],
         inserted =
           [Operation 100 StreamGetContextOp [OpResult 41 0 StreamType] [ContextType] [],
            Operation 101 EventCreateOp [OpResult 100 0 ContextType] [EventType] [],
            Operation 102 EventRecordOp
              [OpResult 101 0 EventType, OpResult 41 0 StreamType, OpResult 40 0 ChainType]
              [ChainType] []],
         erased = [30], replaced = [],
         updated =
           [Operation 2 YieldOp [OpResult 30 0 AsyncTokenType, OpResult 101 0 EventType] [] []]\<rparr>)"
proof -
  from YieldOpRewritePattern_lowers_first_token
         [where operands = "[OpResult 50 0 EventType]" and ir = yield_ir and op = yield_op
            and rw = "conversion_rewriter_at 100"]
  have "YieldOpRewritePattern_matchAndRewrite yield_ir yield_op [OpResult 50 0 EventType]
       (conversion_rewriter_at 100) =
     (Failure, (conversion_rewriter_at 100)\<lparr>diagnostics := [''no cast to token operand'']\<rparr>)"
    by (simp add: yield_ir_casts conversion_rewriter_at_def)
  moreover
  from YieldOpRewritePattern_lowers_first_token
         [where operands = "[OpResult 50 0 EventType, OpResult 30 0 AsyncTokenType]"
            and pre = "[OpResult 50 0 EventType]" and v = "OpResult 30 0 AsyncTokenType"
            and post = "[]" and ir = yield_ir
            and cast_op = "Operation 30 CastOp [OpResult 40 0 ChainType, OpResult 41 0 StreamType]
                [AsyncTokenType] []"
            and op = yield_op and rw = "conversion_rewriter_at 100"]
  have "YieldOpRewritePattern_matchAndRewrite yield_ir yield_op
       [OpResult 50 0 EventType, OpResult 30 0 AsyncTokenType] (conversion_rewriter_at 100) =
     (Success,
      \<lparr>next_id = 103, diagnostics = [],
         inserted =
           [Operation 100 StreamGetContextOp [OpResult 41 0 StreamType] [ContextType] [],
            Operation 101 EventCreateOp [OpResult 100 0 ContextType] [EventType] [],
            Operation 102 EventRecordOp
              [OpResult 101 0 EventType, OpResult 41 0 StreamType, OpResult 40 0 ChainType]
              [ChainType] []],
         erased = [30], replaced = [],
         updated =
           [Operation 2 YieldOp [OpResult 30 0 AsyncTokenType, OpResult 101 0 EventType] [] []]\<rparr>)"
    by (simp add: yield_ir_casts conversion_rewriter_at_def yield_op_def)
  ultimately show ?thesis by blast
qed

text \<open>
  C4 as stated fails on a yield of two tokens: one application creates one event-record
  operation, replaces the first operand only and erases the first cast only; the second
  operand is still the token cast by operation 31.
\<close>

theorem YieldOpRewritePattern_second_token_counterexample:
  "YieldOpRewritePattern_matchAndRewrite yield_ir yield_op
       [OpResult 30 0 AsyncTokenType, OpResult 31 0 AsyncTokenType] (conversion_rewriter_at 100) =
     (Success,
      \<lparr>next_id = 103, diagnostics = [],
         inserted =
           [Operation 100 StreamGetContextOp [OpResult 41 0 StreamType] [ContextType] [],
            Operation 101 EventCreateOp [OpResult 100 0 ContextType] [EventType] [],
            Operation 102 EventRecordOp
              [OpResult 101 0 EventType, OpResult 41 0 StreamType, OpResult 40 0 ChainType]
              [ChainType] []],
         erased = [30], replaced = [],
         updated =
           [Operation 2 YieldOp [OpResult 101 0 EventType, OpResult 31 0 AsyncTokenType] [] []]\<rparr>)
   \<and> GetDefiningCastOp yield_ir (OpResult 31 0 AsyncTokenType) \<noteq> None"
  by (simp add: YieldOpRewritePattern_matchAndRewrite_def yield_ir_casts create_def
        updateRootInPlace_def eraseOp_def conversion_rewriter_at_def yield_op_def Let_def)

end
